theory Spec2Isabelle
  imports Complex_Main "HOL-Library.Monad_Syntax"
begin

unbundle bit_operations_syntax

section \<open>Rasters, images and collections\<close>

text \<open>
  The script \<^verbatim>\<open>Santipur_ndvi.js\<close> is a sequence of calls into a hosted raster service.
  Its own functions (\<^verbatim>\<open>maskS2SR\<close>, \<^verbatim>\<open>maskL8SR\<close>, \<^verbatim>\<open>addNDVIBands\<close>,
  \<^verbatim>\<open>collectionForYear\<close>) and its top-level variables are translated below, one
  definition per function or variable. The operators of the service that they call are
  not part of the repository; they are given a denotation first, after the documented
  behaviour of the service: a band is a partial function from pixel positions to numbers
  (\<open>None\<close> is a masked pixel), an image is a list of named bands with metadata, and a
  collection is a list of images. Numbers are exact reals; rounding of the service's
  floating-point arithmetic is not part of the model. An operation that the service
  rejects (selecting a band that is not there, combining images whose band counts do not
  match) has the value \<open>None\<close>.
\<close>

type_synonym pixel = "real \<times> real"

type_synonym band = "pixel \<Rightarrow> real option"

text \<open>\<^verbatim>\<open>ee.Geometry.Rectangle([west, south, east, north])\<close>\<close>

datatype geometry = Rectangle real real real real

fun inside :: "geometry \<Rightarrow> pixel \<Rightarrow> bool" where
  "inside (Rectangle w s e n) (x, y) = (w \<le> x \<and> x \<le> e \<and> s \<le> y \<and> y \<le> n)"

fun intersects :: "geometry \<Rightarrow> geometry \<Rightarrow> bool" where
  "intersects (Rectangle w1 s1 e1 n1) (Rectangle w2 s2 e2 n2) =
     (w1 \<le> e2 \<and> w2 \<le> e1 \<and> s1 \<le> n2 \<and> s2 \<le> n1)"

text \<open>A date is (year, month, day, millisecond of the day), ordered lexicographically.\<close>

type_synonym ee_date = "int \<times> nat \<times> nat \<times> nat"

fun date_less :: "ee_date \<Rightarrow> ee_date \<Rightarrow> bool" where
  "date_less (y1, m1, d1, t1) (y2, m2, d2, t2) =
     (y1 < y2 \<or> (y1 = y2 \<and> (m1 < m2 \<or> (m1 = m2 \<and> (d1 < d2 \<or> (d1 = d2 \<and> t1 < t2))))))"

definition date_le :: "ee_date \<Rightarrow> ee_date \<Rightarrow> bool" where
  "date_le a b = (a = b \<or> date_less a b)"

text \<open>\<^verbatim>\<open>ee.Date.fromYMD(y, m, d)\<close>: midnight of that day.\<close>

definition fromYMD :: "int \<Rightarrow> nat \<Rightarrow> nat \<Rightarrow> ee_date" where
  "fromYMD y m d = (y, m, d, 0)"

text \<open>\<^verbatim>\<open>date.advance(k, 'year')\<close>. The script only advances the first of January, so
  the clamping of the 29th of February is left out.\<close>

fun advance_year :: "ee_date \<Rightarrow> int \<Rightarrow> ee_date" where
  "advance_year (y, m, d, t) k = (y + k, m, d, t)"

record ee_image =
  bands :: "(string \<times> band) list"
  properties :: "string \<rightharpoonup> real"
  time_start :: "ee_date option"
  footprint :: "geometry option"

type_synonym collection = "ee_image list"

text \<open>
  What the service holds and the script cannot see: the catalogue of stored images, the
  pixel positions of its grid at a scale in metres, the area of the grid cell at a
  position, and the scale it falls back to when \<^verbatim>\<open>bestEffort\<close> is set and a region has
  more than \<^verbatim>\<open>maxPixels\<close> pixels. These are parameters of every definition that needs
  them.
\<close>

record platform =
  catalog :: "string \<Rightarrow> collection"
  grid :: "real \<Rightarrow> pixel list"
  cellArea :: "pixel \<Rightarrow> real"
  bestEffortScale :: "geometry \<Rightarrow> real \<Rightarrow> nat \<Rightarrow> real"

section \<open>Operators of the service\<close>

subsection \<open>Bands of one image\<close>

definition bandNames :: "ee_image \<Rightarrow> string list" where
  "bandNames img = map fst (bands img)"

text \<open>\<^verbatim>\<open>list.contains(x)\<close>\<close>

definition contains :: "'a list \<Rightarrow> 'a \<Rightarrow> bool" where
  "contains xs x = (x \<in> set xs)"

definition band :: "ee_image \<Rightarrow> string \<Rightarrow> band option" where
  "band img n = map_of (bands img) n"

text \<open>\<^verbatim>\<open>image.select(names)\<close>: the named bands in the order asked for; an error when one
  of them is not a band of the image.\<close>

definition select :: "ee_image \<Rightarrow> string list \<Rightarrow> ee_image option" where
  "select img names =
     map_option (\<lambda>bs. img\<lparr>bands := bs\<rparr>)
       (those (map (\<lambda>n. map_option (Pair n) (band img n)) names))"

text \<open>\<^verbatim>\<open>ee.Image.constant(c)\<close>: one band, the same value at every pixel, nothing masked.\<close>

definition ee_constant :: "real \<Rightarrow> ee_image" where
  "ee_constant c = \<lparr>bands = [(''constant'', \<lambda>p. Some c)], properties = Map.empty,
                 time_start = None, footprint = None\<rparr>"

text \<open>\<^verbatim>\<open>image.rename(names)\<close>\<close>

definition rename :: "ee_image \<Rightarrow> string list \<Rightarrow> ee_image option" where
  "rename img names =
     (if length names = length (bands img)
      then Some (img\<lparr>bands := zip names (map snd (bands img))\<rparr>) else None)"

text \<open>A function of one number, applied to every unmasked pixel of every band.\<close>

definition mapBands :: "(real \<Rightarrow> real) \<Rightarrow> ee_image \<Rightarrow> ee_image" where
  "mapBands f img = img\<lparr>bands := map (\<lambda>(n, b). (n, \<lambda>p. map_option f (b p))) (bands img)\<rparr>"

definition truth :: "bool \<Rightarrow> real" where
  "truth b = (if b then 1 else 0)"

text \<open>\<^verbatim>\<open>image.eq(c)\<close>, \<^verbatim>\<open>.neq(c)\<close>, \<^verbatim>\<open>.lt(c)\<close>, \<^verbatim>\<open>.gt(c)\<close> with a number \<open>c\<close>: 1 where the
  comparison holds, 0 where it does not.\<close>

definition img_eq :: "ee_image \<Rightarrow> real \<Rightarrow> ee_image" where
  "img_eq img c = mapBands (\<lambda>v. truth (v = c)) img"

definition img_neq :: "ee_image \<Rightarrow> real \<Rightarrow> ee_image" where
  "img_neq img c = mapBands (\<lambda>v. truth (v \<noteq> c)) img"

definition img_lt :: "ee_image \<Rightarrow> real \<Rightarrow> ee_image" where
  "img_lt img c = mapBands (\<lambda>v. truth (v < c)) img"

definition img_gt :: "ee_image \<Rightarrow> real \<Rightarrow> ee_image" where
  "img_gt img c = mapBands (\<lambda>v. truth (v > c)) img"

text \<open>\<^verbatim>\<open>image.bitwiseAnd(c)\<close> on the integer part of the pixel value.\<close>

definition bitwiseAnd :: "ee_image \<Rightarrow> int \<Rightarrow> ee_image" where
  "bitwiseAnd img c = mapBands (\<lambda>v. of_int (\<lfloor>v\<rfloor> AND c)) img"

text \<open>
  Operators of two images. A pixel of the result is masked where either input is masked.
  Bands are matched as the service does: an image with one band is used against every
  band of the other, images with the same number of bands are used pairwise, anything
  else is an error.
\<close>

definition bandOp2 :: "(real \<Rightarrow> real \<Rightarrow> real) \<Rightarrow> band \<Rightarrow> band \<Rightarrow> band" where
  "bandOp2 f a b = (\<lambda>p. case a p of None \<Rightarrow> None
                        | Some x \<Rightarrow> (case b p of None \<Rightarrow> None | Some y \<Rightarrow> Some (f x y)))"

definition binop :: "(real \<Rightarrow> real \<Rightarrow> real) \<Rightarrow> ee_image \<Rightarrow> ee_image \<Rightarrow> ee_image option" where
  "binop f a b =
     (if length (bands b) = 1
      then Some (a\<lparr>bands := map (\<lambda>(n, x). (n, bandOp2 f x (snd (hd (bands b))))) (bands a)\<rparr>)
      else if length (bands a) = 1
      then Some (a\<lparr>bands := map (\<lambda>(n, y). (n, bandOp2 f (snd (hd (bands a))) y)) (bands b)\<rparr>)
      else if length (bands a) = length (bands b)
      then Some (a\<lparr>bands := map (\<lambda>((n, x), (m, y)). (n, bandOp2 f x y))
                               (zip (bands a) (bands b))\<rparr>)
      else None)"

definition img_or :: "ee_image \<Rightarrow> ee_image \<Rightarrow> ee_image option" where
  "img_or = binop (\<lambda>x y. truth (x \<noteq> 0 \<or> y \<noteq> 0))"

definition img_and :: "ee_image \<Rightarrow> ee_image \<Rightarrow> ee_image option" where
  "img_and = binop (\<lambda>x y. truth (x \<noteq> 0 \<and> y \<noteq> 0))"

definition multiply :: "ee_image \<Rightarrow> ee_image \<Rightarrow> ee_image option" where
  "multiply = binop (\<lambda>x y. x * y)"

text \<open>
  \<^verbatim>\<open>image.updateMask(mask)\<close>: a pixel stays valid where it was valid and the mask is
  valid and not zero. The image keeps its band names and metadata.
\<close>

definition applyMask :: "band \<Rightarrow> band \<Rightarrow> band" where
  "applyMask b m = (\<lambda>p. case b p of None \<Rightarrow> None
                        | Some v \<Rightarrow> (case m p of None \<Rightarrow> None
                                     | Some k \<Rightarrow> if k \<noteq> 0 then Some v else None))"

definition updateMask :: "ee_image \<Rightarrow> ee_image \<Rightarrow> ee_image option" where
  "updateMask img msk =
     (if length (bands msk) = 1
      then Some (img\<lparr>bands := map (\<lambda>(n, b). (n, applyMask b (snd (hd (bands msk)))))
                                 (bands img)\<rparr>)
      else if length (bands msk) = length (bands img)
      then Some (img\<lparr>bands := map (\<lambda>((n, b), (m, k)). (n, applyMask b k))
                                 (zip (bands img) (bands msk))\<rparr>)
      else None)"

text \<open>
  \<^verbatim>\<open>ee.Algorithms.If(condition, trueCase, falseCase)\<close> returns the alternative that the
  condition selects; an error inside the other alternative is not raised.
\<close>

definition Algorithms_If :: "bool \<Rightarrow> 'a option \<Rightarrow> 'a option \<Rightarrow> 'a option" where
  "Algorithms_If c a b = (if c then a else b)"

text \<open>
  \<^verbatim>\<open>dst.addBands(src)\<close> without \<^verbatim>\<open>overwrite\<close>: the bands of \<open>src\<close> are appended to those
  of \<open>dst\<close>; a band whose name is taken is renamed with the first free numeric suffix
  (\<^verbatim>\<open>foo_1\<close>, \<^verbatim>\<open>foo_2\<close>, ...). The metadata is that of \<open>dst\<close>.
\<close>

fun decimal :: "nat \<Rightarrow> string" where
  "decimal n = (if n < 10 then [''0123456789'' ! n]
                else decimal (n div 10) @ [''0123456789'' ! (n mod 10)])"

declare decimal.simps [simp del]

definition freshName :: "string list \<Rightarrow> string \<Rightarrow> string" where
  "freshName used n =
     (if n \<notin> set used then n
      else case find (\<lambda>k. n @ ''_'' @ decimal k \<notin> set used) [1..<length used + 2] of
             Some k \<Rightarrow> n @ ''_'' @ decimal k
           | None \<Rightarrow> n @ ''_'' @ decimal (length used + 2))"

definition addBands :: "ee_image \<Rightarrow> ee_image \<Rightarrow> ee_image" where
  "addBands dst src =
     dst\<lparr>bands := foldl (\<lambda>bs (n, b). bs @ [(freshName (map fst bs) n, b)])
                        (bands dst) (bands src)\<rparr>"

text \<open>
  \<^verbatim>\<open>image.normalizedDifference([a, b])\<close>: one band \<^verbatim>\<open>nd\<close> with (a - b) / (a + b). A pixel
  is masked where an input is masked or negative, and where the quotient is undefined.
  The properties of the input are not kept.
\<close>

definition nd :: "real \<Rightarrow> real \<Rightarrow> real option" where
  "nd x y = (if x < 0 \<or> y < 0 \<or> x + y = 0 then None else Some ((x - y) / (x + y)))"

definition ndBand :: "band \<Rightarrow> band \<Rightarrow> band" where
  "ndBand x y = (\<lambda>p. case x p of None \<Rightarrow> None
                     | Some u \<Rightarrow> (case y p of None \<Rightarrow> None | Some v \<Rightarrow> nd u v))"

definition normalizedDifference :: "ee_image \<Rightarrow> string list \<Rightarrow> ee_image option" where
  "normalizedDifference img names =
     (case names of
        [a, b] \<Rightarrow> do {
          x \<leftarrow> band img a;
          y \<leftarrow> band img b;
          Some \<lparr>bands = [(''nd'', ndBand x y)],
                properties = Map.empty, time_start = None, footprint = footprint img\<rparr>
        }
      | _ \<Rightarrow> None)"

text \<open>\<^verbatim>\<open>image.clip(geometry)\<close>: every pixel outside the geometry is masked.\<close>

definition clip :: "ee_image \<Rightarrow> geometry \<Rightarrow> ee_image" where
  "clip img g = img\<lparr>bands := map (\<lambda>(n, b). (n, \<lambda>p. if inside g p then b p else None)) (bands img),
                    footprint := Some g\<rparr>"

text \<open>\<^verbatim>\<open>image.set(key, value)\<close> and \<^verbatim>\<open>image.get(key)\<close>\<close>

definition set_property :: "ee_image \<Rightarrow> string \<Rightarrow> real \<Rightarrow> ee_image" where
  "set_property img k v = img\<lparr>properties := (properties img)(k \<mapsto> v)\<rparr>"

definition get_property :: "ee_image \<Rightarrow> string \<Rightarrow> real option" where
  "get_property img k = properties img k"

text \<open>\<^verbatim>\<open>ee.Image.pixelArea()\<close>: the area in square metres of the grid cell at each pixel.\<close>

definition pixelArea :: "platform \<Rightarrow> ee_image" where
  "pixelArea P = \<lparr>bands = [(''area'', \<lambda>p. Some (cellArea P p))], properties = Map.empty,
                  time_start = None, footprint = None\<rparr>"

subsection \<open>Collections\<close>

text \<open>\<^verbatim>\<open>ee.ImageCollection(id)\<close> loads a stored collection.\<close>

definition ImageCollection :: "platform \<Rightarrow> string \<Rightarrow> collection" where
  "ImageCollection P name = catalog P name"

text \<open>\<^verbatim>\<open>collection.filterDate(start, end)\<close>: the start is inclusive, the end exclusive.\<close>

definition inDateRange :: "ee_date \<Rightarrow> ee_date \<Rightarrow> ee_image \<Rightarrow> bool" where
  "inDateRange start stop img =
     (case time_start img of None \<Rightarrow> False | Some t \<Rightarrow> date_le start t \<and> date_less t stop)"

definition filterDate :: "collection \<Rightarrow> ee_date \<Rightarrow> ee_date \<Rightarrow> collection" where
  "filterDate col start stop = filter (inDateRange start stop) col"

text \<open>\<^verbatim>\<open>collection.filterBounds(geometry)\<close>: the images whose footprint meets the geometry.\<close>

definition meets :: "geometry \<Rightarrow> ee_image \<Rightarrow> bool" where
  "meets g img = (case footprint img of None \<Rightarrow> True | Some f \<Rightarrow> intersects f g)"

definition filterBounds :: "collection \<Rightarrow> geometry \<Rightarrow> collection" where
  "filterBounds col g = filter (meets g) col"

text \<open>\<^verbatim>\<open>collection.map(f)\<close> and \<^verbatim>\<open>list.map(f)\<close>: an error in one element is an error of
  the whole.\<close>

definition ic_map :: "('a \<Rightarrow> 'b option) \<Rightarrow> 'a list \<Rightarrow> 'b list option" where
  "ic_map f col = those (map f col)"

definition ic_select :: "collection \<Rightarrow> string list \<Rightarrow> collection option" where
  "ic_select col names = ic_map (\<lambda>img. select img names) col"

definition ic_size :: "collection \<Rightarrow> nat" where
  "ic_size col = length col"

text \<open>\<^verbatim>\<open>ee.List.sequence(a, b)\<close> with integer ends.\<close>

definition List_sequence :: "int \<Rightarrow> int \<Rightarrow> int list" where
  "List_sequence a b = [a..b]"

text \<open>\<^verbatim>\<open>ee.ImageCollection.fromImages(list)\<close>\<close>

definition fromImages :: "ee_image list \<Rightarrow> collection" where
  "fromImages imgs = imgs"

subsection \<open>Reducers\<close>

text \<open>
  A reducer sees, at one pixel, the values that are not masked. \<open>stack col k p\<close> is the
  list of those values for the band at position \<open>k\<close>, in the order of the collection.
\<close>

definition stack :: "collection \<Rightarrow> nat \<Rightarrow> pixel \<Rightarrow> real list" where
  "stack col k p = List.map_filter (\<lambda>img. snd (bands img ! k) p) col"

definition median :: "real list \<Rightarrow> real option" where
  "median xs =
     (let s = sort xs; n = length s
      in if n = 0 then None
         else if odd n then Some (s ! (n div 2))
         else Some ((s ! (n div 2 - 1) + s ! (n div 2)) / 2))"

definition minimum :: "real list \<Rightarrow> real option" where
  "minimum xs = (case xs of [] \<Rightarrow> None | x # r \<Rightarrow> Some (fold min r x))"

definition mean :: "real list \<Rightarrow> real option" where
  "mean xs = (if xs = [] then None else Some (sum_list xs / real (length xs)))"

definition total :: "real list \<Rightarrow> real option" where
  "total xs = Some (sum_list xs)"

text \<open>
  Reducing a collection band by band. The images must have the same band names; the
  result has no properties. \<^verbatim>\<open>collection.median()\<close> keeps the band names,
  \<^verbatim>\<open>collection.reduce(ee.Reducer.min())\<close> appends \<^verbatim>\<open>_min\<close> to them.
\<close>

definition reduceImages ::
  "(string \<Rightarrow> string) \<Rightarrow> (real list \<Rightarrow> real option) \<Rightarrow> collection \<Rightarrow> ee_image option" where
  "reduceImages nm r col =
     (case col of
        [] \<Rightarrow> Some \<lparr>bands = [], properties = Map.empty, time_start = None, footprint = None\<rparr>
      | first # rest \<Rightarrow>
          if \<forall>img \<in> set rest. bandNames img = bandNames first
          then Some \<lparr>bands = map (\<lambda>k. (nm (bandNames first ! k), \<lambda>p. r (stack col k p)))
                                  [0..<length (bands first)],
                     properties = Map.empty, time_start = None, footprint = None\<rparr>
          else None)"

definition ic_median :: "collection \<Rightarrow> ee_image option" where
  "ic_median = reduceImages (\<lambda>n. n) median"

definition ic_reduce_min :: "collection \<Rightarrow> ee_image option" where
  "ic_reduce_min = reduceImages (\<lambda>n. n @ ''_min'') minimum"

text \<open>
  \<^verbatim>\<open>collection.reduce(ee.Reducer.linearFit())\<close>: every image has two bands, the first is
  x and the second is y. At each pixel the line y = offset + scale * x is fitted to the
  pairs in which both bands are valid; the result has the bands \<^verbatim>\<open>scale\<close> and
  \<^verbatim>\<open>offset\<close>. Where the pairs do not determine a line the pixel is masked.
\<close>

definition pairs :: "collection \<Rightarrow> pixel \<Rightarrow> (real \<times> real) list" where
  "pairs col p =
     List.map_filter (\<lambda>img. case snd (bands img ! 0) p of None \<Rightarrow> None
                            | Some x \<Rightarrow> (case snd (bands img ! 1) p of None \<Rightarrow> None
                                         | Some y \<Rightarrow> Some (x, y))) col"

definition linearFit :: "(real \<times> real) list \<Rightarrow> (real \<times> real) option" where
  "linearFit ps =
     (let n = real (length ps);
          sx = sum_list (map fst ps);
          sy = sum_list (map snd ps);
          sxx = sum_list (map (\<lambda>(x, y). x * x) ps);
          sxy = sum_list (map (\<lambda>(x, y). x * y) ps);
          d = n * sxx - sx * sx
      in if d = 0 then None
         else let scale = (n * sxy - sx * sy) / d
              in Some (scale, (sy - scale * sx) / n))"

definition ic_reduce_linearFit :: "collection \<Rightarrow> ee_image option" where
  "ic_reduce_linearFit col =
     (if \<forall>img \<in> set col. length (bands img) = 2
      then Some \<lparr>bands = [(''scale'', \<lambda>p. map_option fst (linearFit (pairs col p))),
                          (''offset'', \<lambda>p. map_option snd (linearFit (pairs col p)))],
                 properties = Map.empty, time_start = None, footprint = None\<rparr>
      else None)"

text \<open>
  \<^verbatim>\<open>image.reduceRegion({reducer, geometry, scale, bestEffort, maxPixels})\<close>: the reducer
  is applied, band by band, to the valid pixels of the service's grid at \<open>scale\<close> that lie
  in the geometry; the result is a dictionary from band names to numbers. When the
  geometry has more than \<open>maxPixels\<close> pixels at that scale the service takes a coarser
  scale of its own choice if \<open>bestEffort\<close> is set, and fails otherwise.
\<close>

definition regionPixels :: "platform \<Rightarrow> geometry \<Rightarrow> real \<Rightarrow> bool \<Rightarrow> nat \<Rightarrow> pixel list option" where
  "regionPixels P g scale bestEffort maxPixels =
     (let px = filter (inside g) (grid P scale)
      in if length px \<le> maxPixels then Some px
         else if bestEffort
         then Some (filter (inside g) (grid P (bestEffortScale P g scale maxPixels)))
         else None)"

definition reduceRegion ::
  "platform \<Rightarrow> (real list \<Rightarrow> real option) \<Rightarrow> ee_image \<Rightarrow> geometry \<Rightarrow> real \<Rightarrow> bool \<Rightarrow> nat
     \<Rightarrow> (string \<rightharpoonup> real) option" where
  "reduceRegion P r img g scale bestEffort maxPixels =
     map_option
       (\<lambda>px n. case band img n of None \<Rightarrow> None | Some b \<Rightarrow> r (List.map_filter b px))
       (regionPixels P g scale bestEffort maxPixels)"

text \<open>\<^verbatim>\<open>ee.Feature(null, properties)\<close> and \<^verbatim>\<open>ui.Chart.feature.byFeature\<close>: one row per
  feature, the x property and the y properties of that feature.\<close>

record feature =
  fproperties :: "(string \<times> real option) list"

definition feature_get :: "feature \<Rightarrow> string \<Rightarrow> real option" where
  "feature_get f k = (case map_of (fproperties f) k of None \<Rightarrow> None | Some v \<Rightarrow> v)"

record ee_chart =
  rows :: "(real option \<times> real option list) list"
  options :: "(string \<times> string) list"

definition byFeature :: "feature list \<Rightarrow> string \<Rightarrow> string list \<Rightarrow> ee_chart" where
  "byFeature fc xProperty yProperties =
     \<lparr>rows = map (\<lambda>f. (feature_get f xProperty, map (feature_get f) yProperties)) fc,
      options = []\<rparr>"

definition setOptions :: "ee_chart \<Rightarrow> (string \<times> string) list \<Rightarrow> ee_chart" where
  "setOptions c opts = c\<lparr>options := opts\<rparr>"

section \<open>The script: cloud masks\<close>

text \<open>
  The parameters and functions of the script, in its order. A \<^verbatim>\<open>print\<close> shows the value
  of the variable it is given, so what the script reports is the value of the
  definition of that variable; the calls that only centre the map or add a layer to it
  compute nothing that is reported and have no definition here.
\<close>

definition sensor :: string where
  "sensor = ''S2''"

definition yearStart :: int where
  "yearStart = 2018"

definition yearEnd :: int where
  "yearEnd = 2023"

definition region :: geometry where
  "region = Rectangle 88.35 23.05 88.55 23.35"

definition studyScale :: real where
  "studyScale = (if sensor = ''S2'' then 10 else 30)"

text \<open>The three local variables of \<^verbatim>\<open>maskS2SR\<close>, each with the expression that defines it.\<close>

definition sclMask :: "ee_image \<Rightarrow> ee_image option" where
  "sclMask img =
     (let bnames = bandNames img;
          sclExists = contains bnames ''SCL''
      in Algorithms_If sclExists
           (do {
              s \<leftarrow> select img [''SCL''];
              m45 \<leftarrow> img_or (img_eq s 4) (img_eq s 5);
              m456 \<leftarrow> img_or m45 (img_eq s 6);
              img_or m456 (img_eq s 7)
            })
           (Some (ee_constant 1)))"

definition qaMask :: "ee_image \<Rightarrow> ee_image option" where
  "qaMask img =
     (let bnames = bandNames img;
          qaExists = contains bnames ''QA60''
      in Algorithms_If qaExists
           (map_option (\<lambda>q. img_eq q 0) (select img [''QA60'']))
           (Algorithms_If (contains bnames ''MSK_CLDPRB'')
              (map_option (\<lambda>c. img_lt c 50) (select img [''MSK_CLDPRB'']))
              (Some (ee_constant 1))))"

definition combined :: "ee_image \<Rightarrow> ee_image option" where
  "combined img = do { s \<leftarrow> sclMask img; q \<leftarrow> qaMask img; img_or s q }"

definition maskS2SR :: "ee_image \<Rightarrow> ee_image option" where
  "maskS2SR img = do { c \<leftarrow> combined img; updateMask img c }"

definition maskL8SR :: "ee_image \<Rightarrow> ee_image option" where
  "maskL8SR img = do {
     qa \<leftarrow> select img [''QA_PIXEL''];
     let cloud = push_bit 3 (1::int);
     let cloudShadow = push_bit 4 (1::int);
     mask \<leftarrow> img_and (img_eq (bitwiseAnd qa cloud) 0) (img_eq (bitwiseAnd qa cloudShadow) 0);
     updateMask img mask
   }"

section \<open>The script: yearly composites, trend and statistics\<close>

definition addNDVIBands :: "ee_image \<Rightarrow> ee_image option" where
  "addNDVIBands img =
     (if sensor = ''S2''
      then do { n \<leftarrow> normalizedDifference img [''B8'', ''B4''];
                r \<leftarrow> rename n [''NDVI''];
                Some (addBands img r) }
      else do { n \<leftarrow> normalizedDifference img [''SR_B5'', ''SR_B4''];
                r \<leftarrow> rename n [''NDVI''];
                Some (addBands img r) })"

definition collectionForYear :: "platform \<Rightarrow> int \<Rightarrow> collection option" where
  "collectionForYear P y =
     (let start = fromYMD y 1 1;
          stop = advance_year start 1
      in if sensor = ''S2''
         then do {
           m \<leftarrow> ic_map maskS2SR
                  (filterBounds (filterDate (ImageCollection P ''COPERNICUS/S2_SR'') start stop)
                     region);
           ic_map addNDVIBands m }
         else do {
           m \<leftarrow> ic_map maskL8SR
                  (filterBounds (filterDate (ImageCollection P ''LANDSAT/LC08/C02/T1_L2'') start stop)
                     region);
           ic_map addNDVIBands m })"

definition years :: "int list" where
  "years = List_sequence yearStart yearEnd"

definition counts :: "platform \<Rightarrow> nat list option" where
  "counts P = ic_map (\<lambda>y. map_option ic_size (collectionForYear P y)) years"

text \<open>The function mapped over \<^verbatim>\<open>years\<close> to build \<^verbatim>\<open>yearlyList\<close>.\<close>

definition yearlyImage :: "platform \<Rightarrow> int \<Rightarrow> ee_image option" where
  "yearlyImage P y = do {
     col \<leftarrow> collectionForYear P y;
     med \<leftarrow> Algorithms_If (ic_size col > 0)
              (do { ndvi \<leftarrow> ic_select col [''NDVI''];
                    m \<leftarrow> ic_median ndvi;
                    Some (clip m region) })
              (rename (clip (ee_constant (- 9999)) region) [''NDVI'']);
     t \<leftarrow> rename (ee_constant (of_int y)) [''t''];
     Some (set_property (addBands med t) ''year'' (of_int y))
   }"

definition yearlyList :: "platform \<Rightarrow> ee_image list option" where
  "yearlyList P = ic_map (yearlyImage P) years"

definition yearCollection :: "platform \<Rightarrow> collection option" where
  "yearCollection P = map_option fromImages (yearlyList P)"

definition paired :: "platform \<Rightarrow> collection option" where
  "paired P = do { yc \<leftarrow> yearCollection P; ic_select yc [''t'', ''NDVI''] }"

definition fit :: "platform \<Rightarrow> ee_image option" where
  "fit P = do { pc \<leftarrow> paired P; ic_reduce_linearFit pc }"

text \<open>\<^verbatim>\<open>slope\<close> is assigned twice: \<open>slope0\<close> is its first value, \<open>slope\<close> its final one.\<close>

definition slope0 :: "platform \<Rightarrow> ee_image option" where
  "slope0 P = do { f \<leftarrow> fit P; s \<leftarrow> select f [''scale'']; rename s [''NDVI_slope_per_year''] }"

definition anyValid :: "platform \<Rightarrow> ee_image option" where
  "anyValid P = do {
     yc \<leftarrow> yearCollection P;
     ndvi \<leftarrow> ic_select yc [''NDVI''];
     m \<leftarrow> ic_reduce_min ndvi;
     Some (img_neq m (- 9999))
   }"

definition slope :: "platform \<Rightarrow> ee_image option" where
  "slope P = do { s \<leftarrow> slope0 P; v \<leftarrow> anyValid P; updateMask s v }"

definition maxPixels :: nat where
  "maxPixels = 10 ^ 13"

definition meanPerYearFC :: "platform \<Rightarrow> feature list option" where
  "meanPerYearFC P = do {
     yc \<leftarrow> yearCollection P;
     ic_map (\<lambda>img. do {
        let yr = get_property img ''year'';
        ndvi \<leftarrow> select img [''NDVI''];
        m \<leftarrow> reduceRegion P mean ndvi region studyScale True maxPixels;
        Some \<lparr>fproperties = [(''year'', yr), (''meanNDVI'', m ''NDVI'')]\<rparr>
      }) yc
   }"

definition chart :: "platform \<Rightarrow> ee_chart option" where
  "chart P = do {
     fc \<leftarrow> meanPerYearFC P;
     Some (setOptions (byFeature fc ''year'' [''meanNDVI''])
             [(''title'', ''Mean NDVI per year''), (''vAxis.title'', ''NDVI''),
              (''hAxis.title'', ''Year''), (''lineWidth'', ''2''), (''pointSize'', ''4'')])
   }"

text \<open>The two dictionaries printed as \<^verbatim>\<open>Area pos trend (m^2)\<close> and
  \<^verbatim>\<open>Area neg trend (m^2)\<close>.\<close>

definition areaPos :: "platform \<Rightarrow> (string \<rightharpoonup> real) option" where
  "areaPos P = do {
     s \<leftarrow> slope P;
     a \<leftarrow> multiply (img_gt s 0) (pixelArea P);
     reduceRegion P total a region studyScale True maxPixels
   }"

definition areaNeg :: "platform \<Rightarrow> (string \<rightharpoonup> real) option" where
  "areaNeg P = do {
     s \<leftarrow> slope P;
     a \<leftarrow> multiply (img_lt s 0) (pixelArea P);
     reduceRegion P total a region studyScale True maxPixels
   }"

section \<open>Reading images pixel by pixel\<close>

text \<open>The value of a named band at a pixel; \<open>None\<close> when the pixel is masked or the image
  has no such band.\<close>

definition pixel_value :: "ee_image \<Rightarrow> string \<Rightarrow> pixel \<Rightarrow> real option" where
  "pixel_value img n p = (case band img n of None \<Rightarrow> None | Some b \<Rightarrow> b p)"

text \<open>The value of an image with exactly one band, whatever its name.\<close>

definition mask_at :: "ee_image \<Rightarrow> pixel \<Rightarrow> real option" where
  "mask_at m p = (case bands m of [(n, b)] \<Rightarrow> b p | _ \<Rightarrow> None)"

definition single :: "ee_image \<Rightarrow> bool" where
  "single m = (length (bands m) = 1)"

text \<open>The pointwise disjunction of two mask values.\<close>

definition or_values :: "real option \<Rightarrow> real option \<Rightarrow> real option" where
  "or_values a b =
     (case a of None \<Rightarrow> None
      | Some x \<Rightarrow> (case b of None \<Rightarrow> None | Some y \<Rightarrow> Some (truth (x \<noteq> 0 \<or> y \<noteq> 0))))"

text \<open>The rule of \<^verbatim>\<open>maskS2SR\<close>, written pixel by pixel: the scene classes 4 to 7 pass the
  first test; \<^verbatim>\<open>QA60 = 0\<close> passes the second, or \<^verbatim>\<open>MSK_CLDPRB < 50\<close> when there is no
  \<^verbatim>\<open>QA60\<close>.\<close>

definition landClass :: "real \<Rightarrow> bool" where
  "landClass v = (v = 4 \<or> v = 5 \<or> v = 6 \<or> v = 7)"

definition sclLand :: "ee_image \<Rightarrow> pixel \<Rightarrow> real option" where
  "sclLand img p =
     (case band img ''SCL'' of
        None \<Rightarrow> Some 1
      | Some b \<Rightarrow> map_option (\<lambda>v. truth (landClass v)) (b p))"

definition clearQA :: "ee_image \<Rightarrow> pixel \<Rightarrow> real option" where
  "clearQA img p =
     (case band img ''QA60'' of
        Some b \<Rightarrow> map_option (\<lambda>v. truth (v = 0)) (b p)
      | None \<Rightarrow> (case band img ''MSK_CLDPRB'' of
                   Some b \<Rightarrow> map_option (\<lambda>v. truth (v < 50)) (b p)
                 | None \<Rightarrow> Some 1))"

definition keepMask :: "ee_image \<Rightarrow> pixel \<Rightarrow> real option" where
  "keepMask img p = or_values (sclLand img p) (clearQA img p)"

text \<open>Whether a pixel of a band is still valid after \<^verbatim>\<open>maskS2SR\<close>.\<close>

definition kept :: "ee_image \<Rightarrow> string \<Rightarrow> pixel \<Rightarrow> bool" where
  "kept img n p = (case maskS2SR img of None \<Rightarrow> False | Some out \<Rightarrow> pixel_value out n p \<noteq> None)"

text \<open>The dates of a year: from the first of January, included, to the first of January
  of the next year, excluded.\<close>

definition inYear :: "int \<Rightarrow> ee_image \<Rightarrow> bool" where
  "inYear y img =
     (case time_start img of None \<Rightarrow> False
      | Some t \<Rightarrow> date_le (y, 1, 1, 0) t \<and> date_less t (y + 1, 1, 1, 0))"

text \<open>The value of a band at a pixel once the rule of the mask has been applied.\<close>

definition maskedValue :: "ee_image \<Rightarrow> string \<Rightarrow> pixel \<Rightarrow> real option" where
  "maskedValue src n p =
     (case pixel_value src n p of
        None \<Rightarrow> None
      | Some v \<Rightarrow> (case keepMask src p of
                     None \<Rightarrow> None
                   | Some k \<Rightarrow> if k \<noteq> 0 then Some v else None))"

text \<open>The stored images that pass the two filters, and the index of one of them at a
  pixel: the normalised difference of \<^verbatim>\<open>B8\<close> and \<^verbatim>\<open>B4\<close> where the rule of the mask keeps
  the pixel.\<close>

definition sources :: "platform \<Rightarrow> int \<Rightarrow> ee_image list" where
  "sources P y =
     filter (\<lambda>img. inYear y img \<and> meets (Rectangle 88.35 23.05 88.55 23.35) img)
       (catalog P ''COPERNICUS/S2_SR'')"

definition ndviOf :: "ee_image \<Rightarrow> pixel \<Rightarrow> real option" where
  "ndviOf src p =
     (case keepMask src p of
        None \<Rightarrow> None
      | Some k \<Rightarrow>
          if k \<noteq> 0
          then (case pixel_value src ''B8'' p of None \<Rightarrow> None
                | Some u \<Rightarrow> (case pixel_value src ''B4'' p of None \<Rightarrow> None | Some v \<Rightarrow> nd u v))
          else None)"

text \<open>The index of the composite of a year at a pixel, computed from the stored images.\<close>

definition compositeNDVI :: "platform \<Rightarrow> int \<Rightarrow> pixel \<Rightarrow> real option" where
  "compositeNDVI P y p =
     (if inside (Rectangle 88.35 23.05 88.55 23.35) p
      then (if sources P y = [] then Some (- 9999)
            else median (List.map_filter (\<lambda>src. ndviOf src p) (sources P y)))
      else None)"

text \<open>The stored images the script can use must carry the two bands of the index.\<close>

definition wellFormed :: "platform \<Rightarrow> bool" where
  "wellFormed P =
     (\<forall>img \<in> set (catalog P ''COPERNICUS/S2_SR'').
        contains (bandNames img) ''B8'' \<and> contains (bandNames img) ''B4'')"

definition noIndexBand :: "platform \<Rightarrow> bool" where
  "noIndexBand P =
     (\<forall>img \<in> set (catalog P ''COPERNICUS/S2_SR''). \<not> contains (bandNames img) ''NDVI'')"

text \<open>The valid values of the index at one pixel, over a list of images.\<close>

definition ndviSeries :: "ee_image list \<Rightarrow> pixel \<Rightarrow> real list" where
  "ndviSeries imgs p = List.map_filter (\<lambda>i. pixel_value i ''NDVI'' p) imgs"

text \<open>The valid pairs (\<^verbatim>\<open>t\<close>, \<^verbatim>\<open>NDVI\<close>) at one pixel, over a list of images.\<close>

definition pairSeries :: "ee_image list \<Rightarrow> pixel \<Rightarrow> (real \<times> real) list" where
  "pairSeries imgs p =
     List.map_filter
       (\<lambda>i. case pixel_value i ''t'' p of None \<Rightarrow> None
            | Some x \<Rightarrow> map_option (Pair x) (pixel_value i ''NDVI'' p))
       imgs"

text \<open>The pairs (year, index of that year's composite) at one pixel, for the years of the
  study in which the composite is valid there.\<close>

definition yearNDVI :: "platform \<Rightarrow> pixel \<Rightarrow> (real \<times> real) list" where
  "yearNDVI P p =
     List.map_filter
       (\<lambda>y. case yearlyImage P y of None \<Rightarrow> None
            | Some i \<Rightarrow> map_option (Pair (of_int y)) (pixel_value i ''NDVI'' p))
       years"

text \<open>The sum of squared residuals of the line y = offset + scale * x.\<close>

definition sse :: "(real \<times> real) list \<Rightarrow> real \<Rightarrow> real \<Rightarrow> real" where
  "sse ps scale offset = sum_list (map (\<lambda>(x, y). (y - (offset + scale * x))\<^sup>2) ps)"

text \<open>The pixels of the region at the scale of the study, and the area of those whose
  slope satisfies a condition.\<close>

definition regionGrid :: "platform \<Rightarrow> pixel list" where
  "regionGrid P = filter (inside (Rectangle 88.35 23.05 88.55 23.35)) (grid P 10)"

definition slopeAt :: "platform \<Rightarrow> pixel \<Rightarrow> real option" where
  "slopeAt P p = (case slope P of None \<Rightarrow> None
                  | Some s \<Rightarrow> pixel_value s ''NDVI_slope_per_year'' p)"

definition areaWhere :: "platform \<Rightarrow> (real \<Rightarrow> bool) \<Rightarrow> real" where
  "areaWhere P R =
     sum_list (map (cellArea P)
       (filter (\<lambda>p. case slopeAt P p of None \<Rightarrow> False | Some v \<Rightarrow> R v) (regionGrid P)))"

definition regionalMean :: "platform \<Rightarrow> ee_image \<Rightarrow> real option" where
  "regionalMean P img = mean (List.map_filter (\<lambda>p. pixel_value img ''NDVI'' p) (regionGrid P))"

section \<open>Example data\<close>

text \<open>
  A small service for the concrete instances below. The index of \<open>scene y k cls qa\<close> is
  \<open>k / 5\<close> west of longitude 88.45 and \<open>- k / 5\<close> east of it; its scene class is \<open>cls\<close>
  and its \<^verbatim>\<open>QA60\<close> is \<open>qa\<close> everywhere. The grid has four pixels, three of them inside
  the region.
\<close>

definition scene :: "int \<Rightarrow> real \<Rightarrow> real \<Rightarrow> real \<Rightarrow> ee_image" where
  "scene y k cls qa =
     \<lparr>bands = [(''B4'', \<lambda>(x, u). Some (if x < 88.45 then 5 - k else 5 + k)),
               (''B8'', \<lambda>(x, u). Some (if x < 88.45 then 5 + k else 5 - k)),
               (''SCL'', \<lambda>p. Some cls),
               (''QA60'', \<lambda>p. Some qa)],
      properties = Map.empty, time_start = Some (y, 6, 15, 0),
      footprint = Some (Rectangle 88 23 89 24)\<rparr>"

definition demo :: platform where
  "demo = \<lparr>catalog = (\<lambda>n. if n = ''COPERNICUS/S2_SR''
                          then [scene 2018 0 4 0, scene 2019 1 4 0, scene 2019 0 5 0,
                                scene 2019 2 9 0, scene 2019 5 9 1024, scene 2020 2 4 0,
                                scene 2021 3 4 0, scene 2022 4 4 0, scene 2023 5 4 0,
                                scene 2017 2 4 0]
                          else []),
           grid = (\<lambda>s. [(88.4, 23.1), (88.42, 23.3), (88.5, 23.2), (88.6, 23.2)]),
           cellArea = (\<lambda>p. 100),
           bestEffortScale = (\<lambda>g s m. 2 * s)\<rparr>"

text \<open>The same service without a scene for 2020.\<close>

definition demo_gap :: platform where
  "demo_gap = demo\<lparr>catalog := (\<lambda>n. if n = ''COPERNICUS/S2_SR''
                                    then [scene 2018 0 4 0, scene 2019 1 4 0, scene 2021 3 4 0,
                                          scene 2022 4 4 0, scene 2023 5 4 0]
                                    else [])\<rparr>"

text \<open>
  A service with images that differ in their footprints: two scenes of 2019, one of
  2018, a tile that meets the region at its north-east corner only, and a tile far from
  it. The tiles are dated 2019 and are masked everywhere.
\<close>

definition tile :: "geometry \<Rightarrow> ee_image" where
  "tile g = \<lparr>bands = [(''B4'', \<lambda>p. None), (''B8'', \<lambda>p. None)],
             properties = Map.empty, time_start = Some (2019, 3, 1, 0), footprint = Some g\<rparr>"

definition demo_tiles :: platform where
  "demo_tiles = demo\<lparr>catalog := (\<lambda>n. if n = ''COPERNICUS/S2_SR''
                                      then [scene 2019 1 4 0, tile (Rectangle 90 25 91 26),
                                            scene 2019 5 9 1024,
                                            tile (Rectangle 88.52 23.32 88.6 23.4),
                                            scene 2018 0 4 0]
                                      else [])\<rparr>"

text \<open>An image with none of the three quality bands.\<close>

definition plain :: ee_image where
  "plain = \<lparr>bands = [(''B4'', \<lambda>p. Some 2), (''B8'', \<lambda>p. Some 6)],
            properties = Map.empty, time_start = Some (2019, 3, 1, 0),
            footprint = Some (Rectangle 88 23 89 24)\<rparr>"

text \<open>An image with a scene class and a cloud probability, and without \<^verbatim>\<open>QA60\<close>.\<close>

definition hazy :: "real \<Rightarrow> real \<Rightarrow> ee_image" where
  "hazy cls prob =
     \<lparr>bands = [(''B4'', \<lambda>p. Some 2), (''B8'', \<lambda>p. Some 6), (''SCL'', \<lambda>p. Some cls),
               (''MSK_CLDPRB'', \<lambda>p. Some prob)],
      properties = Map.empty, time_start = Some (2019, 3, 1, 0),
      footprint = Some (Rectangle 88 23 89 24)\<rparr>"



section \<open>Properties of the masks\<close>

lemma select_one:
  "select img [n] = (case band img n of None \<Rightarrow> None | Some b \<Rightarrow> Some (img\<lparr>bands := [(n, b)]\<rparr>))"
  by (simp add: select_def split: option.splits)

lemma band_None_iff: "band img n = None \<longleftrightarrow> \<not> contains (bandNames img) n"
  by (simp add: band_def contains_def bandNames_def map_of_eq_None_iff)

lemma contains_band: "contains (bandNames img) n \<Longrightarrow> \<exists>b. band img n = Some b"
  using band_None_iff[of img n] by (cases "band img n") auto

lemma band_contains: "band img n = Some b \<Longrightarrow> contains (bandNames img) n"
  using band_None_iff[of img n] by auto

lemma mask_at_eq:
  "mask_at (img_eq (img\<lparr>bands := [(n, b)]\<rparr>) c) p = map_option (\<lambda>v. truth (v = c)) (b p)"
  by (simp add: mask_at_def img_eq_def mapBands_def)

lemma mask_at_lt:
  "mask_at (img_lt (img\<lparr>bands := [(n, b)]\<rparr>) c) p = map_option (\<lambda>v. truth (v < c)) (b p)"
  by (simp add: mask_at_def img_lt_def mapBands_def)

lemma mask_at_constant: "mask_at (ee_constant c) p = Some c"
  by (simp add: mask_at_def ee_constant_def)

lemma single_constant: "single (ee_constant c)"
  by (simp add: single_def ee_constant_def)

lemma single_eq: "single (img_eq (img\<lparr>bands := [(n, b)]\<rparr>) c)"
  by (simp add: single_def img_eq_def mapBands_def)

lemma single_lt: "single (img_lt (img\<lparr>bands := [(n, b)]\<rparr>) c)"
  by (simp add: single_def img_lt_def mapBands_def)

lemma binop_single:
  assumes "single a" "single b"
  shows "\<exists>c. binop f a b = Some c \<and> single c \<and>
     (\<forall>p. mask_at c p = (case mask_at a p of None \<Rightarrow> None
        | Some x \<Rightarrow> (case mask_at b p of None \<Rightarrow> None | Some y \<Rightarrow> Some (f x y))))"
proof -
  from assms obtain n x m y where a: "bands a = [(n, x)]" and b: "bands b = [(m, y)]"
    by (auto simp: single_def length_Suc_conv)
  show ?thesis
    by (simp add: binop_def a b single_def mask_at_def bandOp2_def split: option.splits)
qed

lemma or_single:
  assumes "single a" "single b"
  shows "\<exists>c. img_or a b = Some c \<and> single c \<and>
     (\<forall>p. mask_at c p = or_values (mask_at a p) (mask_at b p))"
  unfolding img_or_def or_values_def using binop_single[OF assms] by blast

lemma or_indicator:
  assumes "single a" "single b"
    and "\<forall>p. mask_at a p = map_option (\<lambda>v. truth (A v)) (f p)"
    and "\<forall>p. mask_at b p = map_option (\<lambda>v. truth (B v)) (f p)"
  shows "\<exists>c. img_or a b = Some c \<and> single c \<and>
     (\<forall>p. mask_at c p = map_option (\<lambda>v. truth (A v \<or> B v)) (f p))"
proof -
  obtain c where c: "img_or a b = Some c" "single c"
    "\<forall>p. mask_at c p = or_values (mask_at a p) (mask_at b p)"
    using or_single[OF assms(1,2)] by blast
  have "mask_at c p = map_option (\<lambda>v. truth (A v \<or> B v)) (f p)" for p
    by (cases "f p") (simp_all add: c(3) assms(3,4) truth_def or_values_def)
  with c show ?thesis by blast
qed

lemma sclMask_value:
  "\<exists>s. sclMask img = Some s \<and> single s \<and> (\<forall>p. mask_at s p = sclLand img p)"
proof (cases "band img ''SCL''")
  case None
  then have "\<not> contains (bandNames img) ''SCL''" by (simp add: band_None_iff)
  then show ?thesis using None
    by (simp add: sclMask_def Algorithms_If_def sclLand_def single_constant mask_at_constant)
next
  case (Some b)
  then have c: "contains (bandNames img) ''SCL''" by (rule band_contains)
  let ?s = "img\<lparr>bands := [(''SCL'', b)]\<rparr>"
  obtain m45 where m45: "img_or (img_eq ?s 4) (img_eq ?s 5) = Some m45" "single m45"
    "\<forall>p. mask_at m45 p = map_option (\<lambda>v. truth (v = 4 \<or> v = 5)) (b p)"
    using or_indicator[of "img_eq ?s 4" "img_eq ?s 5" "\<lambda>v. v = 4" b "\<lambda>v. v = 5"]
    by (auto simp: single_eq mask_at_eq)
  obtain m456 where m456: "img_or m45 (img_eq ?s 6) = Some m456" "single m456"
    "\<forall>p. mask_at m456 p = map_option (\<lambda>v. truth ((v = 4 \<or> v = 5) \<or> v = 6)) (b p)"
    using or_indicator[OF m45(2) _ m45(3), of "img_eq ?s 6" "\<lambda>v. v = 6"]
    by (auto simp: single_eq mask_at_eq)
  obtain m where m: "img_or m456 (img_eq ?s 7) = Some m" "single m"
    "\<forall>p. mask_at m p = map_option (\<lambda>v. truth (((v = 4 \<or> v = 5) \<or> v = 6) \<or> v = 7)) (b p)"
    using or_indicator[OF m456(2) _ m456(3), of "img_eq ?s 7" "\<lambda>v. v = 7"]
    by (auto simp: single_eq mask_at_eq)
  have "sclMask img = Some m"
    by (simp add: sclMask_def Algorithms_If_def c select_one Some m45(1) m456(1) m(1))
  with m Some show ?thesis by (simp add: sclLand_def landClass_def)
qed

lemma qaMask_value:
  "\<exists>q. qaMask img = Some q \<and> single q \<and> (\<forall>p. mask_at q p = clearQA img p)"
proof (cases "band img ''QA60''")
  case (Some b)
  then have "contains (bandNames img) ''QA60''" by (rule band_contains)
  then show ?thesis using Some
    by (simp add: qaMask_def Algorithms_If_def select_one clearQA_def single_eq mask_at_eq)
next
  case None
  then have nq: "\<not> contains (bandNames img) ''QA60''" by (simp add: band_None_iff)
  show ?thesis
  proof (cases "band img ''MSK_CLDPRB''")
    case (Some b)
    then have "contains (bandNames img) ''MSK_CLDPRB''" by (rule band_contains)
    then show ?thesis using Some None nq
      by (simp add: qaMask_def Algorithms_If_def select_one clearQA_def single_lt mask_at_lt)
  next
    case n2: None
    then have "\<not> contains (bandNames img) ''MSK_CLDPRB''" by (simp add: band_None_iff)
    then show ?thesis using n2 None nq
      by (simp add: qaMask_def Algorithms_If_def clearQA_def single_constant mask_at_constant)
  qed
qed

lemma combined_value:
  "\<exists>s q c. sclMask img = Some s \<and> qaMask img = Some q \<and> combined img = Some c \<and>
     single s \<and> single q \<and> single c \<and>
     (\<forall>p. mask_at s p = sclLand img p) \<and> (\<forall>p. mask_at q p = clearQA img p) \<and>
     (\<forall>p. mask_at c p = or_values (mask_at s p) (mask_at q p))"
proof -
  obtain s where s: "sclMask img = Some s" "single s" "\<forall>p. mask_at s p = sclLand img p"
    using sclMask_value by blast
  obtain q where q: "qaMask img = Some q" "single q" "\<forall>p. mask_at q p = clearQA img p"
    using qaMask_value by blast
  obtain c where c: "img_or s q = Some c" "single c"
    "\<forall>p. mask_at c p = or_values (mask_at s p) (mask_at q p)"
    using or_single[OF s(2) q(2)] by blast
  have "combined img = Some c" by (simp add: combined_def s q c)
  with s q c show ?thesis by blast
qed

lemma combined_keepMask:
  "\<exists>c. combined img = Some c \<and> single c \<and> (\<forall>p. mask_at c p = keepMask img p)"
proof -
  obtain s q c where "combined img = Some c" "single c"
    "\<forall>p. mask_at s p = sclLand img p" "\<forall>p. mask_at q p = clearQA img p"
    "\<forall>p. mask_at c p = or_values (mask_at s p) (mask_at q p)"
    using combined_value[of img] by blast
  then show ?thesis by (auto simp: keepMask_def)
qed

lemma updateMask_single:
  assumes "single c"
  shows "updateMask img c =
    Some (img\<lparr>bands := map (\<lambda>(n, b). (n, applyMask b (mask_at c))) (bands img)\<rparr>)"
proof -
  from assms obtain n m where c: "bands c = [(n, m)]"
    by (auto simp: single_def length_Suc_conv)
  have "mask_at c = m" by (rule ext) (simp add: mask_at_def c)
  then show ?thesis by (simp add: updateMask_def c)
qed

lemma applyMask_one:
  assumes "\<forall>p. m p = Some 1"
  shows "applyMask b m = b"
proof (rule ext)
  fix p
  from assms have "m p = Some 1" by blast
  then show "applyMask b m p = b p" by (simp add: applyMask_def split: option.splits)
qed

lemma updateMask_all_one:
  assumes "single c" "\<forall>p. mask_at c p = Some 1"
  shows "updateMask img c = Some img"
proof -
  have "map (\<lambda>(n, b). (n, applyMask b (mask_at c))) (bands img) = map (\<lambda>x. x) (bands img)"
    by (rule map_cong) (auto simp: applyMask_one[OF assms(2)])
  then show ?thesis by (simp add: updateMask_single[OF assms(1)])
qed

text \<open>What \<^verbatim>\<open>maskS2SR\<close> returns, for every image: the image itself with the rule applied
  to each band.\<close>

lemma maskS2SR_value:
  "maskS2SR img =
     Some (img\<lparr>bands := map (\<lambda>(n, b). (n, applyMask b (keepMask img))) (bands img)\<rparr>)"
proof -
  obtain c where c: "combined img = Some c" "single c" "\<forall>p. mask_at c p = keepMask img p"
    using combined_keepMask by blast
  have "mask_at c = keepMask img" by (rule ext) (use c(3) in blast)
  then show ?thesis by (simp add: maskS2SR_def c(1) updateMask_single[OF c(2)])
qed

lemma band_map_bands:
  "band (img\<lparr>bands := map (\<lambda>(n, b). (n, f b)) (bands img)\<rparr>) n = map_option f (band img n)"
  by (simp add: band_def map_of_map)

lemma bandNames_map_bands:
  "bandNames (img\<lparr>bands := map (\<lambda>(n, b). (n, f n b)) (bands img)\<rparr>) = bandNames img"
  by (simp add: bandNames_def case_prod_unfold comp_def)

lemma maskS2SR_pixel:
  assumes "maskS2SR img = Some out"
  shows "pixel_value out n p =
           (case pixel_value img n p of None \<Rightarrow> None
            | Some v \<Rightarrow> (case keepMask img p of None \<Rightarrow> None
                         | Some k \<Rightarrow> if k \<noteq> 0 then Some v else None))"
proof -
  from assms have out: "out = img\<lparr>bands := map (\<lambda>(n, b). (n, applyMask b (keepMask img))) (bands img)\<rparr>"
    by (simp add: maskS2SR_value)
  show ?thesis
    by (cases "band img n") (simp_all add: out pixel_value_def band_map_bands applyMask_def)
qed

lemma maskS2SR_bandNames: "maskS2SR img = Some out \<Longrightarrow> bandNames out = bandNames img"
  using bandNames_map_bands[where img = img and f = "\<lambda>n b. applyMask b (keepMask img)"]
  by (simp add: maskS2SR_value)

lemma maskS2SR_meta:
  "maskS2SR img = Some out \<Longrightarrow> time_start out = time_start img \<and> footprint out = footprint img"
  by (auto simp: maskS2SR_value)

text \<open>
  Claim C8. Selecting one band succeeds exactly when \<^verbatim>\<open>contains\<close> finds its name among
  the band names, and for every image \<^verbatim>\<open>maskS2SR\<close> returns an image and never an error;
  without an \<^verbatim>\<open>SCL\<close> band the first mask is the constant 1; without \<^verbatim>\<open>QA60\<close> and
  \<^verbatim>\<open>MSK_CLDPRB\<close> the second mask is the constant 1; and when none of the three bands
  exists the combined mask is 1 at every pixel and the image comes back unchanged.
\<close>

theorem maskS2SR_guards_missing_bands:
  "(\<forall>n. (\<exists>s. select img [n] = Some s) \<longleftrightarrow> contains (bandNames img) n) \<and>
   (\<exists>out. maskS2SR img = Some out) \<and>
   (\<not> contains (bandNames img) ''SCL'' \<longrightarrow> sclMask img = Some (ee_constant 1)) \<and>
   (\<not> contains (bandNames img) ''QA60'' \<and> \<not> contains (bandNames img) ''MSK_CLDPRB''
      \<longrightarrow> qaMask img = Some (ee_constant 1)) \<and>
   (\<not> contains (bandNames img) ''SCL'' \<and> \<not> contains (bandNames img) ''QA60'' \<and>
    \<not> contains (bandNames img) ''MSK_CLDPRB''
      \<longrightarrow> (\<exists>c. combined img = Some c \<and> (\<forall>p. mask_at c p = Some 1)) \<and>
          maskS2SR img = Some img)"
proof (intro conjI impI allI)
  fix n
  show "(\<exists>s. select img [n] = Some s) \<longleftrightarrow> contains (bandNames img) n"
    using band_None_iff[of img n] by (cases "band img n") (simp_all add: select_one)
next
  show "\<exists>out. maskS2SR img = Some out" by (simp add: maskS2SR_value)
next
  assume "\<not> contains (bandNames img) ''SCL''"
  then show "sclMask img = Some (ee_constant 1)" by (simp add: sclMask_def Algorithms_If_def)
next
  assume "\<not> contains (bandNames img) ''QA60'' \<and> \<not> contains (bandNames img) ''MSK_CLDPRB''"
  then show "qaMask img = Some (ee_constant 1)" by (simp add: qaMask_def Algorithms_If_def)
next
  assume a: "\<not> contains (bandNames img) ''SCL'' \<and> \<not> contains (bandNames img) ''QA60'' \<and>
    \<not> contains (bandNames img) ''MSK_CLDPRB''"
  then have "band img ''SCL'' = None" "band img ''QA60'' = None" "band img ''MSK_CLDPRB'' = None"
    by (simp_all add: band_None_iff)
  then have k: "keepMask img p = Some 1" for p
    by (simp add: keepMask_def sclLand_def clearQA_def or_values_def truth_def)
  obtain c where c: "combined img = Some c" "single c" "\<forall>p. mask_at c p = keepMask img p"
    using combined_keepMask by blast
  from c(3) k have one: "\<forall>p. mask_at c p = Some 1" by simp
  with c(1) show "\<exists>c. combined img = Some c \<and> (\<forall>p. mask_at c p = Some 1)" by blast
  show "maskS2SR img = Some img"
    by (simp add: maskS2SR_def c(1) updateMask_all_one[OF c(2) one])
qed

theorem maskS2SR_guards_missing_bands_witness:
  "\<not> contains (bandNames plain) ''SCL'' \<and> \<not> contains (bandNames plain) ''QA60'' \<and>
   \<not> contains (bandNames plain) ''MSK_CLDPRB'' \<and>
   select plain [''SCL''] = None \<and> (\<exists>s. select plain [''B8''] = Some s) \<and>
   sclMask plain = Some (ee_constant 1) \<and> qaMask plain = Some (ee_constant 1) \<and>
   maskS2SR plain = Some plain"
proof -
  have names: "bandNames plain = [''B4'', ''B8'']" by (simp add: plain_def bandNames_def)
  note T = maskS2SR_guards_missing_bands[of plain]
  from T have "(\<exists>s. select plain [''SCL''] = Some s) \<longleftrightarrow> contains (bandNames plain) ''SCL''"
    by blast
  then have 1: "select plain [''SCL''] = None" by (simp add: names contains_def)
  from T have "(\<exists>s. select plain [''B8''] = Some s) \<longleftrightarrow> contains (bandNames plain) ''B8''"
    by blast
  then have 2: "\<exists>s. select plain [''B8''] = Some s" by (simp add: names contains_def)
  from T 1 2 show ?thesis by (simp add: names contains_def)
qed


lemma kept_iff:
  "kept img n p \<longleftrightarrow>
     (\<exists>v k. pixel_value img n p = Some v \<and> keepMask img p = Some k \<and> k \<noteq> 0)"
proof -
  obtain out where out: "maskS2SR img = Some out" by (simp add: maskS2SR_value)
  show ?thesis
    by (simp add: kept_def out maskS2SR_pixel[OF out] split: option.splits)
qed





text \<open>
  Claim C7 says that no logic of the script decides which pixels count as cloud. The
  function \<^verbatim>\<open>maskS2SR\<close> of the script does decide: with the scene class 9 a pixel is kept
  at a cloud probability of 49 and dropped at 50, and at 50 it is kept again when the
  class is 4. The threshold and the list of classes are literals of the script.
\<close>

lemma hazy_values:
  "pixel_value (hazy cls prob) ''B4'' p = Some 2"
  "keepMask (hazy cls prob) p = Some (truth (truth (landClass cls) \<noteq> 0 \<or> truth (prob < 50) \<noteq> 0))"
  by (simp_all add: hazy_def pixel_value_def band_def keepMask_def sclLand_def clearQA_def
      or_values_def)

theorem script_decides_cloud_counterexample:
  "kept (hazy 9 49) ''B4'' (88.4, 23.1) \<and> \<not> kept (hazy 9 50) ''B4'' (88.4, 23.1) \<and>
   kept (hazy 4 50) ''B4'' (88.4, 23.1)"
  by (simp add: kept_iff hazy_values truth_def landClass_def)

text \<open>
  Claim C7 as amended. The service evaluates the operators, and the rule they evaluate is
  the one written in \<^verbatim>\<open>maskS2SR\<close>: a valid pixel stays valid exactly when its scene class
  is 4, 5, 6 or 7 (or there is no \<^verbatim>\<open>SCL\<close> band), or \<^verbatim>\<open>QA60\<close> is 0, or, without \<^verbatim>\<open>QA60\<close>,
  \<^verbatim>\<open>MSK_CLDPRB\<close> is below 50 (or there is neither band); the tests are read where the bands
  they use are valid.
\<close>

theorem maskS2SR_decision_rule:
  "\<exists>out. maskS2SR img = Some out \<and>
     (\<forall>n p. pixel_value out n p =
        (case pixel_value img n p of None \<Rightarrow> None
         | Some v \<Rightarrow> (case or_values (sclLand img p) (clearQA img p) of None \<Rightarrow> None
                      | Some k \<Rightarrow> if k \<noteq> 0 then Some v else None)))"
proof -
  obtain out where out: "maskS2SR img = Some out" by (simp add: maskS2SR_value)
  have "pixel_value out n p =
        (case pixel_value img n p of None \<Rightarrow> None
         | Some v \<Rightarrow> (case or_values (sclLand img p) (clearQA img p) of None \<Rightarrow> None
                      | Some k \<Rightarrow> if k \<noteq> 0 then Some v else None))" for n p
    using maskS2SR_pixel[OF out, of n p] unfolding keepMask_def .
  with out show ?thesis by blast
qed

theorem maskS2SR_decision_rule_witness:
  "\<exists>out. maskS2SR (hazy 9 50) = Some out \<and> pixel_value out ''B4'' (88.4, 23.1) = None \<and>
     pixel_value out ''B8'' (88.5, 23.2) = None"
proof -
  have k: "or_values (sclLand (hazy 9 50) p) (clearQA (hazy 9 50) p) = Some 0" for p
    using hazy_values(2)[of 9 50 p] by (simp add: keepMask_def truth_def landClass_def)
  from maskS2SR_decision_rule[of "hazy 9 50"]
  obtain out where out: "maskS2SR (hazy 9 50) = Some out"
    and r: "\<And>n p. pixel_value out n p =
        (case pixel_value (hazy 9 50) n p of None \<Rightarrow> None
         | Some v \<Rightarrow> (case or_values (sclLand (hazy 9 50) p) (clearQA (hazy 9 50) p) of
                        None \<Rightarrow> None
                      | Some k \<Rightarrow> if k \<noteq> 0 then Some v else None))"
    by blast
  have "pixel_value out ''B4'' (88.4, 23.1) = None" "pixel_value out ''B8'' (88.5, 23.2) = None"
    by (simp_all add: r k split: option.splits)
  with out show ?thesis by blast
qed


section \<open>The yearly collection\<close>

lemma those_map_Some_iff:
  "those (map f xs) = Some ys \<longleftrightarrow> list_all2 (\<lambda>x y. f x = Some y) xs ys"
proof (induction xs arbitrary: ys)
  case Nil
  show ?case by auto
next
  case (Cons x xs)
  show ?case
  proof (cases "f x")
    case None
    then show ?thesis by (auto simp: list_all2_Cons1)
  next
    case (Some v)
    then show ?thesis using Cons.IH by (cases "those (map f xs)") (auto simp: list_all2_Cons1)
  qed
qed

lemma ic_map_Some_iff: "ic_map f xs = Some ys \<longleftrightarrow> list_all2 (\<lambda>x y. f x = Some y) xs ys"
  by (simp add: ic_map_def those_map_Some_iff)

lemma ic_map_eqI:
  assumes "\<And>x. x \<in> set xs \<Longrightarrow> f x = Some (g x)"
  shows "ic_map f xs = Some (map g xs)"
  unfolding ic_map_Some_iff using assms by (simp add: list_all2_conv_all_nth)

lemma inDateRange_year:
  "inDateRange (fromYMD y 1 1) (advance_year (fromYMD y 1 1) 1) = inYear y"
  by (rule ext) (simp add: inDateRange_def inYear_def fromYMD_def split: option.splits)

lemma collectionForYear_unfold:
  "collectionForYear P y =
     (case those (map maskS2SR (sources P y)) of
        None \<Rightarrow> None
      | Some masked \<Rightarrow> those (map addNDVIBands masked))"
proof -
  have f: "filterBounds (filterDate (ImageCollection P ''COPERNICUS/S2_SR'') (fromYMD y 1 1)
              (advance_year (fromYMD y 1 1) 1)) region = sources P y"
    unfolding filterBounds_def filterDate_def inDateRange_year ImageCollection_def sources_def
      region_def
    by (simp add: conj_commute)
  have "collectionForYear P y = ic_map maskS2SR (sources P y) \<bind> ic_map addNDVIBands"
    unfolding collectionForYear_def Let_def f by (simp add: sensor_def)
  then show ?thesis
    by (cases "those (map maskS2SR (sources P y))") (simp_all add: ic_map_def)
qed

lemma pipeline_Some:
  assumes "(case those (map f xs) of None \<Rightarrow> None | Some ms \<Rightarrow> those (map g ms)) = Some col"
  shows "list_all2 (\<lambda>x out. \<exists>m. f x = Some m \<and> g m = Some out) xs col"
proof -
  from assms obtain ms where ms: "those (map f xs) = Some ms" "those (map g ms) = Some col"
    by (auto split: option.splits)
  then have "list_all2 (\<lambda>x m. f x = Some m) xs ms" "list_all2 (\<lambda>m out. g m = Some out) ms col"
    by (simp_all add: those_map_Some_iff)
  then have "list_all2 ((\<lambda>x m. f x = Some m) OO (\<lambda>m out. g m = Some out)) xs col"
    by (auto simp: list.rel_compp)
  then show ?thesis by (rule list_all2_mono) auto
qed

lemma pipeline_total:
  assumes "\<forall>x \<in> set xs. \<exists>m out. f x = Some m \<and> g m = Some out"
  shows "\<exists>col. (case those (map f xs) of None \<Rightarrow> None | Some ms \<Rightarrow> those (map g ms)) = Some col"
  using assms
proof (induction xs)
  case Nil
  show ?case by simp
next
  case (Cons x xs)
  then obtain m out where x: "f x = Some m" "g m = Some out" by auto
  from Cons obtain ms col where r: "those (map f xs) = Some ms" "those (map g ms) = Some col"
    by (auto split: option.splits)
  show ?case by (simp add: x r)
qed

subsection \<open>Adding the index band\<close>

lemma addBands_single:
  "bands r = [(n, b)] \<Longrightarrow>
     addBands img r = img\<lparr>bands := bands img @ [(freshName (bandNames img) n, b)]\<rparr>"
  by (simp add: addBands_def bandNames_def)

lemma addNDVIBands_value:
  assumes "band img ''B8'' = Some x" "band img ''B4'' = Some y"
  shows "addNDVIBands img =
    Some (img\<lparr>bands := bands img @ [(freshName (bandNames img) ''NDVI'', ndBand x y)]\<rparr>)"
  by (simp add: addNDVIBands_def sensor_def normalizedDifference_def assms rename_def
      addBands_single)

lemma freshName_unused: "n \<notin> set used \<Longrightarrow> freshName used n = n"
  by (simp add: freshName_def)

lemma band_after_append:
  "band (img\<lparr>bands := bands img @ [(freshName (bandNames img) n, b)]\<rparr>) n =
     (case band img n of None \<Rightarrow> Some b | Some b' \<Rightarrow> Some b')"
proof (cases "band img n")
  case None
  then have "n \<notin> set (bandNames img)" using band_None_iff[of img n] by (simp add: contains_def)
  then have "freshName (bandNames img) n = n" by (rule freshName_unused)
  then show ?thesis using None by (simp add: band_def map_add_def)
next
  case (Some b')
  then show ?thesis by (simp add: band_def map_add_def)
qed

lemma band_kept_after_append:
  "band img k = Some b' \<Longrightarrow> band (img\<lparr>bands := bands img @ extra\<rparr>) k = Some b'"
  by (simp add: band_def map_add_def)

lemma masked_band:
  assumes "maskS2SR src = Some m"
  shows "band m n = map_option (\<lambda>b. applyMask b (keepMask src)) (band src n)"
  using assms by (auto simp: maskS2SR_value band_map_bands)

lemma mask_then_index:
  assumes "contains (bandNames src) ''B8''" "contains (bandNames src) ''B4''"
  shows "\<exists>m out. maskS2SR src = Some m \<and> addNDVIBands m = Some out \<and>
           contains (bandNames out) ''NDVI'' \<and> footprint out = footprint src \<and>
           (\<not> contains (bandNames src) ''NDVI'' \<longrightarrow> (\<forall>p. pixel_value out ''NDVI'' p = ndviOf src p))"
proof -
  obtain m where m: "maskS2SR src = Some m" by (simp add: maskS2SR_value)
  from assms obtain x y where xy: "band src ''B8'' = Some x" "band src ''B4'' = Some y"
    using contains_band by blast
  let ?x = "applyMask x (keepMask src)" and ?y = "applyMask y (keepMask src)"
  have mb: "band m ''B8'' = Some ?x" "band m ''B4'' = Some ?y"
    by (simp_all add: masked_band[OF m] xy)
  let ?out = "m\<lparr>bands := bands m @ [(freshName (bandNames m) ''NDVI'', ndBand ?x ?y)]\<rparr>"
  have out: "addNDVIBands m = Some ?out" by (rule addNDVIBands_value[OF mb])
  have has: "contains (bandNames ?out) ''NDVI''"
    using band_after_append[of m "''NDVI''" "ndBand ?x ?y"] band_None_iff[of ?out "''NDVI''"]
    by (auto split: option.splits)
  have fp: "footprint ?out = footprint src" using maskS2SR_meta[OF m] by simp
  have val: "pixel_value ?out ''NDVI'' p = ndviOf src p"
    if no: "\<not> contains (bandNames src) ''NDVI''" for p
  proof -
    from no have "band m ''NDVI'' = None"
      using maskS2SR_bandNames[OF m] by (simp add: band_None_iff)
    then have "band ?out ''NDVI'' = Some (ndBand ?x ?y)"
      using band_after_append[of m "''NDVI''" "ndBand ?x ?y"] by simp
    then show ?thesis
      by (simp add: pixel_value_def ndviOf_def xy ndBand_def applyMask_def split: option.splits)
  qed
  from m out has fp val show ?thesis by blast
qed

lemma wellFormed_sources:
  "wellFormed P \<Longrightarrow> src \<in> set (sources P y) \<Longrightarrow>
     contains (bandNames src) ''B8'' \<and> contains (bandNames src) ''B4''"
  by (simp add: wellFormed_def sources_def)

lemma collection_total:
  assumes "wellFormed P"
  shows "\<exists>col. collectionForYear P y = Some col"
  unfolding collectionForYear_unfold
proof (rule pipeline_total, rule ballI)
  fix src assume "src \<in> set (sources P y)"
  then have "contains (bandNames src) ''B8''" "contains (bandNames src) ''B4''"
    using wellFormed_sources[OF assms] by blast+
  then show "\<exists>m out. maskS2SR src = Some m \<and> addNDVIBands m = Some out"
    using mask_then_index by blast
qed

lemma collection_elements:
  assumes "collectionForYear P y = Some col"
  shows "list_all2 (\<lambda>src out. \<exists>m. maskS2SR src = Some m \<and> addNDVIBands m = Some out)
           (sources P y) col"
  using assms unfolding collectionForYear_unfold by (rule pipeline_Some)

text \<open>What masking and then adding the index does to one image.\<close>

lemma mask_then_index_values:
  assumes "maskS2SR src = Some m" "addNDVIBands m = Some out"
  shows "time_start out = time_start src" and "footprint out = footprint src"
    and "bandNames out = bandNames src @ [freshName (bandNames src) ''NDVI'']"
    and "contains (bandNames src) n \<Longrightarrow> pixel_value out n p = maskedValue src n p"
    and "\<not> contains (bandNames src) ''NDVI'' \<Longrightarrow> pixel_value out ''NDVI'' p = ndviOf src p"
proof -
  from assms(2) obtain x y where xy: "band m ''B8'' = Some x" "band m ''B4'' = Some y"
    by (auto simp: addNDVIBands_def sensor_def normalizedDifference_def
        split: Option.bind_splits)
  let ?out = "m\<lparr>bands := bands m @ [(freshName (bandNames m) ''NDVI'', ndBand x y)]\<rparr>"
  from assms(2) have out: "out = ?out" by (simp add: addNDVIBands_value[OF xy])
  have names: "bandNames m = bandNames src" by (rule maskS2SR_bandNames[OF assms(1)])
  from xy obtain x0 y0 where src: "band src ''B8'' = Some x0" "band src ''B4'' = Some y0"
    and x: "x = applyMask x0 (keepMask src)" and y: "y = applyMask y0 (keepMask src)"
    by (auto simp: masked_band[OF assms(1)])
  show "time_start out = time_start src" "footprint out = footprint src"
    using maskS2SR_meta[OF assms(1)] by (simp_all add: out)
  show "bandNames out = bandNames src @ [freshName (bandNames src) ''NDVI'']"
    using names by (simp add: out bandNames_def)
  show "pixel_value out n p = maskedValue src n p" if "contains (bandNames src) n"
  proof -
    from that obtain b where b: "band src n = Some b" using contains_band by blast
    then have "band m n = Some (applyMask b (keepMask src))" by (simp add: masked_band[OF assms(1)])
    then have "band out n = Some (applyMask b (keepMask src))"
      unfolding out by (rule band_kept_after_append)
    then show ?thesis by (simp add: pixel_value_def maskedValue_def b applyMask_def)
  qed
  show "pixel_value out ''NDVI'' p = ndviOf src p" if "\<not> contains (bandNames src) ''NDVI''"
  proof -
    from that have "band m ''NDVI'' = None" using names by (simp add: band_None_iff)
    then have "band out ''NDVI'' = Some (ndBand x y)"
      unfolding out using band_after_append[of m "''NDVI''" "ndBand x y"] by simp
    then show ?thesis
      by (simp add: pixel_value_def ndviOf_def src x y ndBand_def applyMask_def
          split: option.splits)
  qed
qed

text \<open>
  Claim C3. The collection of a year returns when every stored image of the sensor's
  collection has the two bands of the index, and what it returns is this: one image for
  each stored image dated from the first of January of the year (included) to the first
  of January of the next (excluded) whose footprint meets the region, in the order of the
  store. That image has the date and footprint of the stored one; each band of the
  stored image with the rule of the cloud mask applied to it; and one band more, named
  \<^verbatim>\<open>NDVI\<close> when the stored image has no band of that name, which is the normalised
  difference of the masked bands \<^verbatim>\<open>B8\<close> and \<^verbatim>\<open>B4\<close>.
\<close>

theorem collectionForYear_pipeline:
  "(wellFormed P \<longrightarrow> (\<exists>col. collectionForYear P y = Some col)) \<and>
   (\<forall>col. collectionForYear P y = Some col \<longrightarrow>
      length col =
        length (filter (\<lambda>img. inYear y img \<and> meets region img) (catalog P ''COPERNICUS/S2_SR'')) \<and>
      (\<forall>k < length col. \<forall>src.
         src = filter (\<lambda>img. inYear y img \<and> meets region img) (catalog P ''COPERNICUS/S2_SR'') ! k
         \<longrightarrow>
           time_start (col ! k) = time_start src \<and> footprint (col ! k) = footprint src \<and>
           bandNames (col ! k) = bandNames src @ [freshName (bandNames src) ''NDVI''] \<and>
           (\<forall>n p. contains (bandNames src) n \<longrightarrow>
                  pixel_value (col ! k) n p = maskedValue src n p) \<and>
           (\<not> contains (bandNames src) ''NDVI'' \<longrightarrow>
              (\<forall>p. pixel_value (col ! k) ''NDVI'' p = ndviOf src p))))"
proof (intro conjI allI impI)
  assume "wellFormed P"
  then show "\<exists>col. collectionForYear P y = Some col" by (rule collection_total)
next
  fix col assume col: "collectionForYear P y = Some col"
  have acc: "filter (\<lambda>img. inYear y img \<and> meets region img) (catalog P ''COPERNICUS/S2_SR'')
               = sources P y"
    by (simp add: sources_def region_def)
  have l: "list_all2 (\<lambda>src out. \<exists>m. maskS2SR src = Some m \<and> addNDVIBands m = Some out)
           (sources P y) col"
    by (rule collection_elements[OF col])
  then have len: "length (sources P y) = length col" by (rule list_all2_lengthD)
  then show "length col =
        length (filter (\<lambda>img. inYear y img \<and> meets region img) (catalog P ''COPERNICUS/S2_SR''))"
    by (simp add: acc)
  fix k src
  assume k: "k < length col"
    and "src = filter (\<lambda>img. inYear y img \<and> meets region img) (catalog P ''COPERNICUS/S2_SR'') ! k"
  then have src: "src = sources P y ! k" by (simp add: acc)
  from l k len obtain m where m: "maskS2SR src = Some m" "addNDVIBands m = Some (col ! k)"
    unfolding src by (auto simp: list_all2_conv_all_nth)
  note v = mask_then_index_values[OF m]
  show "time_start (col ! k) = time_start src" by (rule v(1))
  show "footprint (col ! k) = footprint src" by (rule v(2))
  show "bandNames (col ! k) = bandNames src @ [freshName (bandNames src) ''NDVI'']" by (rule v(3))
  show "pixel_value (col ! k) n p = maskedValue src n p" if "contains (bandNames src) n" for n p
    using that by (rule v(4))
  show "pixel_value (col ! k) ''NDVI'' p = ndviOf src p"
    if "\<not> contains (bandNames src) ''NDVI''" for p
    using that by (rule v(5))
qed

lemma scene_simps:
  "bandNames (scene y k cls qa) = [''B4'', ''B8'', ''SCL'', ''QA60'']"
  "time_start (scene y k cls qa) = Some (y, 6, 15, 0)"
  "footprint (scene y k cls qa) = Some (Rectangle 88 23 89 24)"
  by (simp_all add: scene_def bandNames_def)

lemma inYear_scene: "inYear y (scene y' k cls qa) \<longleftrightarrow> y' = y"
  by (auto simp: inYear_def scene_simps date_le_def)

lemma meets_scene:
  "meets (Rectangle w s e n) (scene y k cls qa) \<longleftrightarrow> 88 \<le> e \<and> w \<le> 89 \<and> 23 \<le> n \<and> s \<le> 24"
  by (simp add: meets_def scene_simps)

lemma wellFormed_demo: "wellFormed demo"
  by (simp add: wellFormed_def demo_def scene_simps contains_def)

lemma noIndexBand_demo: "noIndexBand demo"
  by (simp add: noIndexBand_def demo_def scene_simps contains_def)

lemma sources_demo:
  "sources demo 2018 = [scene 2018 0 4 0]"
  "sources demo 2019 = [scene 2019 1 4 0, scene 2019 0 5 0, scene 2019 2 9 0, scene 2019 5 9 1024]"
  "sources demo 2020 = [scene 2020 2 4 0]"
  "sources demo 2021 = [scene 2021 3 4 0]"
  "sources demo 2022 = [scene 2022 4 4 0]"
  "sources demo 2023 = [scene 2023 5 4 0]"
  by (simp_all add: sources_def demo_def inYear_scene meets_scene)

lemma tile_simps:
  "bandNames (tile g) = [''B4'', ''B8'']"
  "time_start (tile g) = Some (2019, 3, 1, 0)"
  "footprint (tile g) = Some g"
  by (simp_all add: tile_def bandNames_def)

lemma inYear_tile: "inYear y (tile g) \<longleftrightarrow> y = 2019"
  by (auto simp: inYear_def tile_simps date_le_def)

lemma meets_tile:
  "meets (Rectangle w s e n) (tile (Rectangle a b c d)) \<longleftrightarrow> a \<le> e \<and> w \<le> c \<and> b \<le> n \<and> s \<le> d"
  by (simp add: meets_def tile_simps)

lemma ndviOf_tile: "ndviOf (tile g) p = None"
  by (simp add: ndviOf_def pixel_value_def band_def tile_def split: option.splits)

lemma catalog_demo_tiles:
  "catalog demo_tiles ''COPERNICUS/S2_SR'' =
     [scene 2019 1 4 0, tile (Rectangle 90 25 91 26), scene 2019 5 9 1024,
      tile (Rectangle 88.52 23.32 88.6 23.4), scene 2018 0 4 0]"
  by (simp add: demo_tiles_def)

lemma wellFormed_demo_tiles: "wellFormed demo_tiles"
  by (simp add: wellFormed_def catalog_demo_tiles scene_simps tile_simps contains_def)

lemma noIndexBand_demo_tiles: "noIndexBand demo_tiles"
  by (simp add: noIndexBand_def catalog_demo_tiles scene_simps tile_simps contains_def)

lemma sources_demo_tiles:
  "sources demo_tiles 2019 =
     [scene 2019 1 4 0, scene 2019 5 9 1024, tile (Rectangle 88.52 23.32 88.6 23.4)]"
  by (simp add: sources_def catalog_demo_tiles inYear_scene meets_scene inYear_tile meets_tile)

lemma ndviOf_scene:
  "ndviOf (scene y k cls qa) (x, u) =
     (if landClass cls \<or> qa = 0
      then nd (if x < 88.45 then 5 + k else 5 - k) (if x < 88.45 then 5 - k else 5 + k)
      else None)"
  by (simp add: ndviOf_def keepMask_def sclLand_def clearQA_def or_values_def truth_def
      pixel_value_def band_def scene_def)

lemma maskedValue_scene:
  "maskedValue (scene y k cls qa) ''B4'' (x, u) =
     (if landClass cls \<or> qa = 0 then Some (if x < 88.45 then 5 - k else 5 + k) else None)"
  by (simp add: maskedValue_def keepMask_def sclLand_def clearQA_def or_values_def truth_def
      pixel_value_def band_def scene_def)

theorem collectionForYear_pipeline_witness:
  "wellFormed demo_tiles \<and>
   (\<exists>col. collectionForYear demo_tiles 2019 = Some col \<and> length col = 3 \<and>
      bandNames (col ! 0) = [''B4'', ''B8'', ''SCL'', ''QA60'', ''NDVI''] \<and>
      time_start (col ! 0) = Some (2019, 6, 15, 0) \<and>
      pixel_value (col ! 0) ''B4'' (88.4, 23.1) = Some 4 \<and>
      pixel_value (col ! 0) ''NDVI'' (88.4, 23.1) = Some (1 / 5) \<and>
      pixel_value (col ! 1) ''B4'' (88.4, 23.1) = None \<and>
      pixel_value (col ! 1) ''NDVI'' (88.4, 23.1) = None \<and>
      footprint (col ! 2) = Some (Rectangle 88.52 23.32 88.6 23.4))"
proof -
  note T = collectionForYear_pipeline[of demo_tiles 2019]
  from T[THEN conjunct1, rule_format, OF wellFormed_demo_tiles]
  obtain col where col: "collectionForYear demo_tiles 2019 = Some col" ..
  have acc: "filter (\<lambda>img. inYear 2019 img \<and> meets region img)
               (catalog demo_tiles ''COPERNICUS/S2_SR'')
             = [scene 2019 1 4 0, scene 2019 5 9 1024, tile (Rectangle 88.52 23.32 88.6 23.4)]"
    using sources_demo_tiles by (simp add: sources_def region_def)
  note L = T[THEN conjunct2, rule_format, OF col, unfolded acc]
  from L[THEN conjunct1] have len: "length col = 3" by simp
  have each: "time_start (col ! k) = time_start src \<and> footprint (col ! k) = footprint src \<and>
           bandNames (col ! k) = bandNames src @ [freshName (bandNames src) ''NDVI''] \<and>
           (\<forall>n p. contains (bandNames src) n \<longrightarrow>
                  pixel_value (col ! k) n p = maskedValue src n p) \<and>
           (\<not> contains (bandNames src) ''NDVI'' \<longrightarrow>
              (\<forall>p. pixel_value (col ! k) ''NDVI'' p = ndviOf src p))"
    if "k < 3"
      "src = [scene 2019 1 4 0, scene 2019 5 9 1024, tile (Rectangle 88.52 23.32 88.6 23.4)] ! k"
    for k src
  proof (rule L[THEN conjunct2, rule_format])
    show "k < length col" using that(1) len by simp
    show "src = [scene 2019 1 4 0, scene 2019 5 9 1024,
                 tile (Rectangle 88.52 23.32 88.6 23.4)] ! k" by (rule that(2))
  qed
  have s0: "contains (bandNames (scene y k cls qa)) ''B4''"
    "\<not> contains (bandNames (scene y k cls qa)) ''NDVI''" for y k cls qa
    by (simp_all add: scene_simps contains_def)
  from each[of 0 "scene 2019 1 4 0"] s0[of 2019 1 4 0]
  have a: "bandNames (col ! 0) = [''B4'', ''B8'', ''SCL'', ''QA60'', ''NDVI'']"
    "time_start (col ! 0) = Some (2019, 6, 15, 0)"
    "pixel_value (col ! 0) ''B4'' (88.4, 23.1) = maskedValue (scene 2019 1 4 0) ''B4'' (88.4, 23.1)"
    "pixel_value (col ! 0) ''NDVI'' (88.4, 23.1) = ndviOf (scene 2019 1 4 0) (88.4, 23.1)"
    by (simp_all add: scene_simps freshName_def)
  from each[of 1 "scene 2019 5 9 1024"] s0[of 2019 5 9 1024]
  have b: "pixel_value (col ! 1) ''B4'' (88.4, 23.1) = maskedValue (scene 2019 5 9 1024) ''B4'' (88.4, 23.1)"
    "pixel_value (col ! 1) ''NDVI'' (88.4, 23.1) = ndviOf (scene 2019 5 9 1024) (88.4, 23.1)"
    by simp_all
  from each[of 2 "tile (Rectangle 88.52 23.32 88.6 23.4)"]
  have c: "footprint (col ! 2) = Some (Rectangle 88.52 23.32 88.6 23.4)"
    by (simp add: tile_simps)
  have "pixel_value (col ! 0) ''B4'' (88.4, 23.1) = Some 4"
    "pixel_value (col ! 0) ''NDVI'' (88.4, 23.1) = Some (1 / 5)"
    "pixel_value (col ! 1) ''B4'' (88.4, 23.1) = None"
    "pixel_value (col ! 1) ''NDVI'' (88.4, 23.1) = None"
    using a(3,4) b
    by (simp_all add: maskedValue_scene ndviOf_scene landClass_def nd_def)
  with wellFormed_demo_tiles col len a(1,2) c show ?thesis by simp
qed


section \<open>The yearly composites\<close>

lemma addNDVIBands_has_index:
  assumes "addNDVIBands m = Some out"
  shows "\<exists>b. band out ''NDVI'' = Some b"
proof -
  from assms obtain x y where xy: "band m ''B8'' = Some x" "band m ''B4'' = Some y"
    by (auto simp: addNDVIBands_def sensor_def normalizedDifference_def
        split: Option.bind_splits)
  from assms have "out = m\<lparr>bands := bands m @ [(freshName (bandNames m) ''NDVI'', ndBand x y)]\<rparr>"
    by (simp add: addNDVIBands_value[OF xy])
  then show ?thesis
    using band_after_append[of m "''NDVI''" "ndBand x y"] by (auto split: option.splits)
qed

lemma collection_has_index:
  assumes "collectionForYear P y = Some col" "i \<in> set col"
  shows "\<exists>b. band i ''NDVI'' = Some b"
proof -
  from assms(2) obtain k where k: "k < length col" "col ! k = i" by (auto simp: in_set_conv_nth)
  from collection_elements[OF assms(1)] k
  obtain m where "addNDVIBands m = Some i" by (auto simp: list_all2_conv_all_nth)
  then show ?thesis by (rule addNDVIBands_has_index)
qed

lemma map_filter_via_map: "List.map_filter f xs = List.map_filter (\<lambda>v. v) (map f xs)"
  by (induction xs) (simp_all add: List.map_filter_def)

lemma ndviSeries_map: "ndviSeries col p = List.map_filter (\<lambda>v. v) (map (\<lambda>i. pixel_value i ''NDVI'' p) col)"
  unfolding ndviSeries_def by (rule map_filter_via_map)

text \<open>The median of the selected index bands of a collection that is not empty.\<close>

lemma median_of_selection:
  assumes "col \<noteq> []" "\<forall>i \<in> set col. \<exists>b. band i ''NDVI'' = Some b"
  shows "\<exists>sel m. ic_select col [''NDVI''] = Some sel \<and> ic_median sel = Some m \<and>
           bands m = [(''NDVI'', \<lambda>p. median (ndviSeries col p))]"
proof -
  let ?g = "\<lambda>i. i\<lparr>bands := [(''NDVI'', the (band i ''NDVI''))]\<rparr>"
  let ?sel = "map ?g col"
  have sel: "ic_select col [''NDVI''] = Some ?sel"
    unfolding ic_select_def
  proof (rule ic_map_eqI)
    fix i assume "i \<in> set col"
    with assms(2) obtain b where "band i ''NDVI'' = Some b" by blast
    then show "select i [''NDVI''] = Some (?g i)" by (simp add: select_one)
  qed
  from assms(1) obtain first rest where col: "col = first # rest" by (cases col) auto
  have names: "bandNames (?g i) = [''NDVI'']" for i by (simp add: bandNames_def)
  have st: "stack ?sel 0 p = ndviSeries col p" for p
  proof -
    have eq: "map (\<lambda>i. snd (bands i ! 0) p) ?sel = map (\<lambda>i. pixel_value i ''NDVI'' p) col"
      using assms(2) by (auto simp: pixel_value_def)
    show ?thesis
      by (simp only: stack_def ndviSeries_map
          map_filter_via_map[of "\<lambda>i. snd (bands i ! 0) p" ?sel] eq)
  qed
  have "ic_median ?sel =
      Some \<lparr>bands = [(''NDVI'', \<lambda>p. median (stack ?sel 0 p))], properties = Map.empty,
            time_start = None, footprint = None\<rparr>"
    by (simp add: ic_median_def reduceImages_def col names)
  then have "ic_median ?sel =
      Some \<lparr>bands = [(''NDVI'', \<lambda>p. median (ndviSeries col p))], properties = Map.empty,
            time_start = None, footprint = None\<rparr>"
    by (simp add: st)
  with sel show ?thesis by force
qed

text \<open>Attaching the year: the band \<^verbatim>\<open>t\<close> and the property \<^verbatim>\<open>year\<close>.\<close>

lemma attach_year:
  assumes "bands med = [(''NDVI'', b)]"
  shows "\<exists>img. (rename (ee_constant c) [''t''] \<bind>
                 (\<lambda>t. Some (set_property (addBands med t) ''year'' c))) = Some img \<and>
           bands img = [(''NDVI'', b), (''t'', \<lambda>p. Some c)] \<and>
           get_property img ''year'' = Some c \<and> footprint img = footprint med"
  by (simp add: rename_def ee_constant_def addBands_def freshName_def set_property_def
      get_property_def assms)

lemma yearly_value:
  assumes "collectionForYear P y = Some col"
  shows "\<exists>img. yearlyImage P y = Some img \<and>
           bands img =
             [(''NDVI'', \<lambda>p. if inside region p
                              then (if col = [] then Some (- 9999) else median (ndviSeries col p))
                              else None),
              (''t'', \<lambda>p. Some (of_int y))] \<and>
           get_property img ''year'' = Some (of_int y) \<and> footprint img = Some region"
proof (cases "col = []")
  case True
  let ?med = "\<lparr>bands = [(''NDVI'', \<lambda>p. if inside region p then Some (- 9999) else None)],
               properties = Map.empty, time_start = None, footprint = Some region\<rparr>"
  have med: "rename (clip (ee_constant (- 9999)) region) [''NDVI''] = Some ?med"
    by (simp add: rename_def clip_def ee_constant_def)
  obtain img where img: "(rename (ee_constant (of_int y)) [''t''] \<bind>
                 (\<lambda>t. Some (set_property (addBands ?med t) ''year'' (of_int y)))) = Some img"
     "bands img = [(''NDVI'', \<lambda>p. if inside region p then Some (- 9999) else None),
                   (''t'', \<lambda>p. Some (of_int y))]"
     "get_property img ''year'' = Some (of_int y)" "footprint img = footprint ?med"
    using attach_year[of ?med _ "of_int y"] by auto
  have "yearlyImage P y = Some img"
    using img(1) by (simp add: yearlyImage_def assms True Algorithms_If_def ic_size_def med)
  with img True show ?thesis by (simp cong: if_cong)
next
  case False
  have "\<forall>i \<in> set col. \<exists>b. band i ''NDVI'' = Some b"
    using collection_has_index[OF assms] by blast
  from median_of_selection[OF False this]
  obtain sel m where sm: "ic_select col [''NDVI''] = Some sel" "ic_median sel = Some m"
    "bands m = [(''NDVI'', \<lambda>p. median (ndviSeries col p))]" by blast
  let ?med = "clip m region"
  have bm: "bands ?med = [(''NDVI'', \<lambda>p. if inside region p then median (ndviSeries col p) else None)]"
    by (simp add: clip_def sm(3))
  obtain img where img: "(rename (ee_constant (of_int y)) [''t''] \<bind>
                 (\<lambda>t. Some (set_property (addBands ?med t) ''year'' (of_int y)))) = Some img"
     "bands img = [(''NDVI'', \<lambda>p. if inside region p then median (ndviSeries col p) else None),
                   (''t'', \<lambda>p. Some (of_int y))]"
     "get_property img ''year'' = Some (of_int y)" "footprint img = footprint ?med"
    using attach_year[OF bm, of "of_int y"] by auto
  have "yearlyImage P y = Some img"
    using img(1) False
    by (simp add: yearlyImage_def assms Algorithms_If_def ic_size_def sm(1,2))
  with img False show ?thesis by (simp add: clip_def cong: if_cong)
qed

lemma yearly_pixels:
  assumes "collectionForYear P y = Some col"
  shows "\<exists>img. yearlyImage P y = Some img \<and> bandNames img = [''NDVI'', ''t''] \<and>
           get_property img ''year'' = Some (of_int y) \<and> footprint img = Some region \<and>
           (\<forall>p. pixel_value img ''NDVI'' p =
                  (if inside region p
                   then (if col = [] then Some (- 9999) else median (ndviSeries col p))
                   else None)) \<and>
           (\<forall>p. pixel_value img ''t'' p = Some (of_int y))"
proof -
  from yearly_value[OF assms] obtain img where img: "yearlyImage P y = Some img"
    "bands img =
             [(''NDVI'', \<lambda>p. if inside region p
                              then (if col = [] then Some (- 9999) else median (ndviSeries col p))
                              else None),
              (''t'', \<lambda>p. Some (of_int y))]"
    "get_property img ''year'' = Some (of_int y)" "footprint img = Some region"
    by blast
  have "pixel_value img ''NDVI'' p =
          (if inside region p
           then (if col = [] then Some (- 9999) else median (ndviSeries col p)) else None)" for p
    by (simp add: pixel_value_def band_def img(2))
  moreover have "pixel_value img ''t'' p = Some (of_int y)" for p
    by (simp add: pixel_value_def band_def img(2))
  moreover have "bandNames img = [''NDVI'', ''t'']" by (simp add: bandNames_def img(2))
  ultimately show ?thesis using img(1,3,4) by blast
qed

lemma years_list: "years = [2018, 2019, 2020, 2021, 2022, 2023]"
  by (simp add: years_def List_sequence_def yearStart_def yearEnd_def upto_rec1)

lemma yearlyList_elements:
  "yearlyList P = Some ys \<longleftrightarrow> list_all2 (\<lambda>y img. yearlyImage P y = Some img) years ys"
  by (simp add: yearlyList_def ic_map_Some_iff)

text \<open>
  Claim C1. For a year of the study whose collection is not empty, the image of that
  year exists, it is the image at the year's place in \<^verbatim>\<open>yearlyList\<close>, and at every pixel
  its band \<^verbatim>\<open>NDVI\<close> is the median of the valid \<^verbatim>\<open>NDVI\<close> values of the collection's images
  inside the region and masked outside it.
\<close>

theorem yearly_composite_is_clipped_median:
  assumes "y \<in> set years" "collectionForYear P y = Some col" "col \<noteq> []"
  shows "\<exists>img. yearlyImage P y = Some img \<and>
           (\<forall>p. pixel_value img ''NDVI'' p =
                  (if inside region p then median (ndviSeries col p) else None)) \<and>
           (\<forall>ys. yearlyList P = Some ys \<longrightarrow>
                  (\<exists>k < length ys. years ! k = y \<and> ys ! k = img))"
proof -
  from yearly_pixels[OF assms(2)] assms(3)
  obtain img where img: "yearlyImage P y = Some img"
    "\<forall>p. pixel_value img ''NDVI'' p =
           (if inside region p then median (ndviSeries col p) else None)"
    by auto
  have "\<exists>k < length ys. years ! k = y \<and> ys ! k = img" if ys: "yearlyList P = Some ys" for ys
  proof -
    from assms(1) obtain k where k: "k < length years" "years ! k = y"
      by (auto simp: in_set_conv_nth)
    from ys have l: "list_all2 (\<lambda>y img. yearlyImage P y = Some img) years ys"
      by (simp add: yearlyList_elements)
    then have "length ys = length years" by (simp add: list_all2_lengthD)
    moreover from l k have "yearlyImage P y = Some (ys ! k)"
      by (auto simp: list_all2_conv_all_nth)
    ultimately show ?thesis using k img(1) by auto
  qed
  with img show ?thesis by blast
qed

subsection \<open>The composites in terms of the stored images\<close>

lemma series_of_sources:
  assumes "wellFormed P" "noIndexBand P" "collectionForYear P y = Some col"
  shows "ndviSeries col p = List.map_filter (\<lambda>src. ndviOf src p) (sources P y)"
    and "col = [] \<longleftrightarrow> sources P y = []"
proof -
  have l: "list_all2 (\<lambda>src out. \<exists>m. maskS2SR src = Some m \<and> addNDVIBands m = Some out)
           (sources P y) col"
    by (rule collection_elements[OF assms(3)])
  then have len: "length (sources P y) = length col" by (rule list_all2_lengthD)
  then show "col = [] \<longleftrightarrow> sources P y = []" by auto
  have "pixel_value (col ! k) ''NDVI'' p = ndviOf (sources P y ! k) p" if k: "k < length col" for k
  proof -
    let ?src = "sources P y ! k"
    have mem: "?src \<in> set (sources P y)" using k len by simp
    then have wf: "contains (bandNames ?src) ''B8''" "contains (bandNames ?src) ''B4''"
      using wellFormed_sources[OF assms(1)] by blast+
    from mem have no: "\<not> contains (bandNames ?src) ''NDVI''"
      using assms(2) by (simp add: noIndexBand_def sources_def)
    from l k len obtain m where m: "maskS2SR ?src = Some m" "addNDVIBands m = Some (col ! k)"
      by (auto simp: list_all2_conv_all_nth)
    from mask_then_index[OF wf] no m show ?thesis by (cases p) auto
  qed
  then have "map (\<lambda>i. pixel_value i ''NDVI'' p) col = map (\<lambda>src. ndviOf src p) (sources P y)"
    using len by (auto simp: list_eq_iff_nth_eq)
  then show "ndviSeries col p = List.map_filter (\<lambda>src. ndviOf src p) (sources P y)"
    unfolding ndviSeries_map using map_filter_via_map[of "\<lambda>src. ndviOf src p" "sources P y"]
    by simp
qed

lemma composite_of_sources:
  assumes "wellFormed P" "noIndexBand P"
  shows "\<exists>img. yearlyImage P y = Some img \<and> bandNames img = [''NDVI'', ''t''] \<and>
           get_property img ''year'' = Some (of_int y) \<and>
           (\<forall>p. pixel_value img ''NDVI'' p = compositeNDVI P y p) \<and>
           (\<forall>p. pixel_value img ''t'' p = Some (of_int y))"
proof -
  obtain col where col: "collectionForYear P y = Some col"
    using collection_total[OF assms(1)] by blast
  from yearly_pixels[OF col] obtain img where img: "yearlyImage P y = Some img"
    "bandNames img = [''NDVI'', ''t'']" "get_property img ''year'' = Some (of_int y)"
    "\<forall>p. pixel_value img ''NDVI'' p =
                  (if inside region p
                   then (if col = [] then Some (- 9999) else median (ndviSeries col p))
                   else None)"
    "\<forall>p. pixel_value img ''t'' p = Some (of_int y)"
    by blast
  have "pixel_value img ''NDVI'' p = compositeNDVI P y p" for p
    using img(4)[rule_format, of p] series_of_sources(1)[OF assms col, of p]
      series_of_sources(2)[OF assms col]
    by (simp add: compositeNDVI_def region_def cong: if_cong)
  with img show ?thesis by blast
qed

theorem yearly_composite_is_clipped_median_witness:
  "2019 \<in> set years \<and>
   (\<exists>col img. collectionForYear demo 2019 = Some col \<and> col \<noteq> [] \<and>
      yearlyImage demo 2019 = Some img \<and>
      pixel_value img ''NDVI'' (88.4, 23.1) = Some (1 / 5) \<and>
      pixel_value img ''NDVI'' (88.6, 23.2) = None)"
proof -
  have y: "2019 \<in> set years" by (simp add: years_list)
  obtain col where col: "collectionForYear demo 2019 = Some col"
    using collection_total[OF wellFormed_demo] by blast
  have ne: "col \<noteq> []"
    using series_of_sources(2)[OF wellFormed_demo noIndexBand_demo col] by (simp add: sources_demo)
  have s: "ndviSeries col (88.4, 23.1) = [1 / 5, 0, 2 / 5]"
    by (simp add: series_of_sources(1)[OF wellFormed_demo noIndexBand_demo col] sources_demo
        ndviOf_scene landClass_def nd_def)
  from yearly_composite_is_clipped_median[OF y col ne]
  obtain img where img: "yearlyImage demo 2019 = Some img"
    "\<forall>p. pixel_value img ''NDVI'' p =
           (if inside region p then median (ndviSeries col p) else None)"
    by blast
  have "pixel_value img ''NDVI'' (88.4, 23.1) = Some (1 / 5)"
    using img(2)[rule_format, of "(88.4, 23.1)"] s by (simp add: region_def median_def)
  moreover have "pixel_value img ''NDVI'' (88.6, 23.2) = None"
    using img(2)[rule_format, of "(88.6, 23.2)"] by (simp add: region_def)
  ultimately show ?thesis using y col ne img(1) by blast
qed


section \<open>The trend\<close>

subsection \<open>The closed form of the fit minimises the squared residuals\<close>

lemma residual_sum:
  "sum_list (map (\<lambda>(x, y). y - (b + a * x)) ps) =
     sum_list (map snd ps) - b * real (length ps) - a * sum_list (map fst ps)"
  by (induction ps) (auto simp: algebra_simps)

lemma residual_moment:
  "sum_list (map (\<lambda>(x, y). (y - (b + a * x)) * x) (ps :: (real \<times> real) list)) =
     sum_list (map (\<lambda>(x, y). x * y) ps) - b * sum_list (map fst ps)
       - a * sum_list (map (\<lambda>(x, y). x * x) ps)"
proof (induction ps)
  case Nil
  show ?case by simp
next
  case (Cons p ps)
  obtain x y where p: "p = (x, y)" by (cases p)
  show ?case unfolding p using Cons.IH by (simp add: ring_distribs)
qed

lemma sse_shift:
  "sse ps a' b' =
     sse ps a b
       - 2 * (b' - b) * sum_list (map (\<lambda>(x, y). y - (b + a * x)) ps)
       - 2 * (a' - a) * sum_list (map (\<lambda>(x, y). (y - (b + a * x)) * x) ps)
       + sum_list (map (\<lambda>(x, y). ((b' - b) + (a' - a) * x)\<^sup>2) ps)"
  unfolding sse_def by (induction ps) (auto simp: algebra_simps power2_eq_square)

lemma linearFit_normal_equations:
  assumes "linearFit ps = Some (a, b)"
  shows "sum_list (map (\<lambda>(x, y). y - (b + a * x)) ps) = 0"
    and "sum_list (map (\<lambda>(x, y). (y - (b + a * x)) * x) ps) = 0"
proof -
  let ?n = "real (length ps)"
  let ?sx = "sum_list (map fst ps)" and ?sy = "sum_list (map snd ps)"
  let ?sxx = "sum_list (map (\<lambda>(x, y). x * x) ps)" and ?sxy = "sum_list (map (\<lambda>(x, y). x * y) ps)"
  let ?d = "?n * ?sxx - ?sx * ?sx"
  from assms have d: "?d \<noteq> 0" and a: "a = (?n * ?sxy - ?sx * ?sy) / ?d"
    and b: "b = (?sy - a * ?sx) / ?n"
    by (auto simp: linearFit_def Let_def split: if_splits)
  have n: "?n \<noteq> 0"
  proof
    assume "?n = 0"
    then have "ps = []" by simp
    with d show False by simp
  qed
  from b n have bn: "b * ?n = ?sy - a * ?sx" by (simp add: field_simps)
  from a d have ad: "a * ?d = ?n * ?sxy - ?sx * ?sy" by (simp add: field_simps)
  show "sum_list (map (\<lambda>(x, y). y - (b + a * x)) ps) = 0"
    unfolding residual_sum using bn by simp
  have "?n * (?sxy - b * ?sx - a * ?sxx) = ?n * ?sxy - (b * ?n) * ?sx - a * (?n * ?sxx)"
    by (simp add: algebra_simps)
  also have "\<dots> = ?n * ?sxy - (?sy - a * ?sx) * ?sx - a * (?n * ?sxx)" by (simp only: bn)
  also have "\<dots> = (?n * ?sxy - ?sx * ?sy) - a * ?d" by (simp add: algebra_simps)
  also have "\<dots> = 0" using ad by simp
  finally have "?sxy - b * ?sx - a * ?sxx = 0" using n by simp
  then show "sum_list (map (\<lambda>(x, y). (y - (b + a * x)) * x) ps) = 0"
    unfolding residual_moment .
qed

lemma linearFit_least_squares:
  assumes "linearFit ps = Some (a, b)"
  shows "sse ps a b \<le> sse ps a' b'"
proof -
  have "0 \<le> sum_list (map (\<lambda>(x, y). ((b' - b) + (a' - a) * x)\<^sup>2) ps)"
    by (rule sum_list_nonneg) auto
  then show ?thesis
    unfolding sse_shift[of ps a' b' a b] linearFit_normal_equations[OF assms] by simp
qed


subsection \<open>The list of yearly images\<close>

lemma yearlyImage_collection:
  "yearlyImage P y = Some img \<Longrightarrow> \<exists>col. collectionForYear P y = Some col"
  by (cases "collectionForYear P y") (simp_all add: yearlyImage_def)

lemma yearly_structure:
  assumes "yearlyImage P y = Some img"
  shows "\<exists>b. bands img = [(''NDVI'', b), (''t'', \<lambda>p. Some (of_int y))] \<and>
             (\<forall>p. \<not> inside region p \<longrightarrow> b p = None)"
    and "get_property img ''year'' = Some (of_int y)"
    and "footprint img = Some region"
proof -
  from yearlyImage_collection[OF assms] obtain col where col: "collectionForYear P y = Some col"
    by blast
  from yearly_value[OF col] assms
  have b: "bands img =
             [(''NDVI'', \<lambda>p. if inside region p
                              then (if col = [] then Some (- 9999) else median (ndviSeries col p))
                              else None),
              (''t'', \<lambda>p. Some (of_int y))]"
    and g: "get_property img ''year'' = Some (of_int y)" and f: "footprint img = Some region"
    by auto
  from b show "\<exists>b. bands img = [(''NDVI'', b), (''t'', \<lambda>p. Some (of_int y))] \<and>
             (\<forall>p. \<not> inside region p \<longrightarrow> b p = None)" by auto
  from g show "get_property img ''year'' = Some (of_int y)" .
  from f show "footprint img = Some region" .
qed

lemma yearlyList_nth:
  assumes "yearlyList P = Some ys"
  shows "length ys = length years"
    and "k < length years \<Longrightarrow> yearlyImage P (years ! k) = Some (ys ! k)"
  using assms by (auto simp: yearlyList_elements list_all2_conv_all_nth)

lemma yearlyList_total:
  assumes "wellFormed P"
  shows "\<exists>ys. yearlyList P = Some ys"
proof -
  have "\<exists>img. yearlyImage P y = Some img" for y
    using collection_total[OF assms, of y] yearly_value by blast
  then have "yearlyList P = Some (map (\<lambda>y. the (yearlyImage P y)) years)"
    unfolding yearlyList_def by (intro ic_map_eqI) auto
  then show ?thesis by blast
qed

text \<open>An image with the band \<^verbatim>\<open>NDVI\<close> followed by the band \<^verbatim>\<open>t\<close>.\<close>

lemma two_band_values:
  assumes "bands i = [(''NDVI'', b), (''t'', c)]"
  shows "band i ''NDVI'' = Some b" "band i ''t'' = Some c"
    "pixel_value i ''NDVI'' p = b p" "pixel_value i ''t'' p = c p"
  by (simp_all add: band_def pixel_value_def assms)

lemma yearlyList_two_bands:
  assumes "yearlyList P = Some ys" "i \<in> set ys"
  shows "\<exists>b c. bands i = [(''NDVI'', b), (''t'', c)]"
proof -
  from assms(2) obtain k where k: "k < length ys" "ys ! k = i" by (auto simp: in_set_conv_nth)
  with yearlyList_nth[OF assms(1)] have "yearlyImage P (years ! k) = Some i" by auto
  from yearly_structure(1)[OF this] show ?thesis by blast
qed

lemma yearlyList_nonempty: "yearlyList P = Some ys \<Longrightarrow> ys \<noteq> []"
  using yearlyList_nth(1)[of P ys] by (auto simp: years_list)

subsection \<open>From the yearly images to the slope\<close>

lemma paired_value:
  assumes "\<forall>i \<in> set ys. \<exists>b c. bands i = [(''NDVI'', b), (''t'', c)]"
  shows "\<exists>pc. ic_select ys [''t'', ''NDVI''] = Some pc \<and>
           (\<forall>i \<in> set pc. length (bands i) = 2) \<and> (\<forall>p. pairs pc p = pairSeries ys p)"
proof -
  let ?g = "\<lambda>i. i\<lparr>bands := [(''t'', the (band i ''t'')), (''NDVI'', the (band i ''NDVI''))]\<rparr>"
  have sel: "ic_select ys [''t'', ''NDVI''] = Some (map ?g ys)"
    unfolding ic_select_def
  proof (rule ic_map_eqI)
    fix i assume "i \<in> set ys"
    with assms obtain b c where "bands i = [(''NDVI'', b), (''t'', c)]" by blast
    then show "select i [''t'', ''NDVI''] = Some (?g i)"
      by (simp add: select_def two_band_values)
  qed
  have "pairs (map ?g ys) p = pairSeries ys p" for p
  proof -
    have eq: "map (\<lambda>img. case snd (bands img ! 0) p of None \<Rightarrow> None
                 | Some x \<Rightarrow> (case snd (bands img ! 1) p of None \<Rightarrow> None | Some y \<Rightarrow> Some (x, y)))
                (map ?g ys)
            = map (\<lambda>i. case pixel_value i ''t'' p of None \<Rightarrow> None
                        | Some x \<Rightarrow> map_option (Pair x) (pixel_value i ''NDVI'' p)) ys"
      using assms by (auto simp: two_band_values split: option.splits)
    show ?thesis
      unfolding pairs_def pairSeries_def
      by (subst map_filter_via_map, subst eq, subst map_filter_via_map[symmetric], rule refl)
  qed
  with sel show ?thesis by auto
qed

lemma minimum_value:
  assumes "ys \<noteq> []" "\<forall>i \<in> set ys. \<exists>b c. bands i = [(''NDVI'', b), (''t'', c)]"
  shows "\<exists>sel m. ic_select ys [''NDVI''] = Some sel \<and> ic_reduce_min sel = Some m \<and>
           bands m = [(''NDVI_min'', \<lambda>p. minimum (ndviSeries ys p))]"
proof -
  let ?g = "\<lambda>i. i\<lparr>bands := [(''NDVI'', the (band i ''NDVI''))]\<rparr>"
  let ?sel = "map ?g ys"
  have sel: "ic_select ys [''NDVI''] = Some ?sel"
    unfolding ic_select_def
  proof (rule ic_map_eqI)
    fix i assume "i \<in> set ys"
    with assms(2) obtain b c where "bands i = [(''NDVI'', b), (''t'', c)]" by blast
    then show "select i [''NDVI''] = Some (?g i)" by (simp add: select_one two_band_values)
  qed
  from assms(1) obtain first rest where ys: "ys = first # rest" by (cases ys) auto
  have names: "bandNames (?g i) = [''NDVI'']" for i by (simp add: bandNames_def)
  have st: "stack ?sel 0 p = ndviSeries ys p" for p
  proof -
    have eq: "map (\<lambda>i. snd (bands i ! 0) p) ?sel = map (\<lambda>i. pixel_value i ''NDVI'' p) ys"
      using assms(2) by (auto simp: two_band_values)
    show ?thesis
      by (simp only: stack_def ndviSeries_map
          map_filter_via_map[of "\<lambda>i. snd (bands i ! 0) p" ?sel] eq)
  qed
  have "ic_reduce_min ?sel =
      Some \<lparr>bands = [(''NDVI_min'', \<lambda>p. minimum (stack ?sel 0 p))], properties = Map.empty,
            time_start = None, footprint = None\<rparr>"
    by (simp add: ic_reduce_min_def reduceImages_def ys names)
  then have "ic_reduce_min ?sel =
      Some \<lparr>bands = [(''NDVI_min'', \<lambda>p. minimum (ndviSeries ys p))], properties = Map.empty,
            time_start = None, footprint = None\<rparr>"
    by (simp add: st)
  with sel show ?thesis by force
qed

lemma trend_value:
  assumes "yearlyList P = Some ys"
  shows "\<exists>f s0 v s.
     fit P = Some f \<and> slope0 P = Some s0 \<and> anyValid P = Some v \<and> slope P = Some s \<and>
     (\<forall>p. pixel_value f ''scale'' p = map_option fst (linearFit (pairSeries ys p))) \<and>
     bands s0 = [(''NDVI_slope_per_year'', \<lambda>p. map_option fst (linearFit (pairSeries ys p)))] \<and>
     bands v = [(''NDVI_min'', \<lambda>p. map_option (\<lambda>m. truth (m \<noteq> - 9999)) (minimum (ndviSeries ys p)))] \<and>
     bands s = [(''NDVI_slope_per_year'',
                 applyMask (\<lambda>p. map_option fst (linearFit (pairSeries ys p)))
                   (\<lambda>p. map_option (\<lambda>m. truth (m \<noteq> - 9999)) (minimum (ndviSeries ys p))))]"
proof -
  have two: "\<forall>i \<in> set ys. \<exists>b c. bands i = [(''NDVI'', b), (''t'', c)]"
    using yearlyList_two_bands[OF assms] by blast
  have ne: "ys \<noteq> []" by (rule yearlyList_nonempty[OF assms])
  have yc: "yearCollection P = Some ys" by (simp add: yearCollection_def assms fromImages_def)
  from paired_value[OF two] obtain pc where pc: "ic_select ys [''t'', ''NDVI''] = Some pc"
    "\<forall>i \<in> set pc. length (bands i) = 2" "\<forall>p. pairs pc p = pairSeries ys p" by blast
  let ?scale = "\<lambda>p. map_option fst (linearFit (pairSeries ys p))"
  let ?offset = "\<lambda>p. map_option snd (linearFit (pairSeries ys p))"
  let ?f = "\<lparr>bands = [(''scale'', ?scale), (''offset'', ?offset)],
             properties = Map.empty, time_start = None, footprint = None\<rparr>"
  have "ic_reduce_linearFit pc =
      Some \<lparr>bands = [(''scale'', \<lambda>p. map_option fst (linearFit (pairs pc p))),
                      (''offset'', \<lambda>p. map_option snd (linearFit (pairs pc p)))],
            properties = Map.empty, time_start = None, footprint = None\<rparr>"
    using pc(2) by (simp add: ic_reduce_linearFit_def)
  then have fitv: "ic_reduce_linearFit pc = Some ?f" using pc(3) by simp
  have f: "fit P = Some ?f" by (simp add: fit_def paired_def yc pc(1) fitv)
  let ?raw = "?f\<lparr>bands := [(''NDVI_slope_per_year'', ?scale)]\<rparr>"
  have s0: "slope0 P = Some ?raw"
    by (simp add: slope0_def f select_one band_def rename_def)
  from minimum_value[OF ne two] obtain sel m where sm: "ic_select ys [''NDVI''] = Some sel"
    "ic_reduce_min sel = Some m" "bands m = [(''NDVI_min'', \<lambda>p. minimum (ndviSeries ys p))]"
    by blast
  let ?v = "img_neq m (- 9999)"
  let ?vb = "\<lambda>p. map_option (\<lambda>m. truth (m \<noteq> - 9999)) (minimum (ndviSeries ys p))"
  have v: "anyValid P = Some ?v" by (simp add: anyValid_def yc sm(1,2))
  have vb: "bands ?v = [(''NDVI_min'', ?vb)]" by (simp add: img_neq_def mapBands_def sm(3))
  have sv: "single ?v" by (simp add: single_def vb)
  have va: "mask_at ?v = ?vb" by (rule ext) (simp add: mask_at_def vb)
  let ?s = "?raw\<lparr>bands := [(''NDVI_slope_per_year'', applyMask ?scale ?vb)]\<rparr>"
  have "updateMask ?raw ?v = Some ?s" unfolding updateMask_single[OF sv] va by simp
  then have s: "slope P = Some ?s" by (simp add: slope_def s0 v)
  have fs: "pixel_value ?f ''scale'' p = ?scale p" for p by (simp add: pixel_value_def band_def)
  have "fit P = Some ?f \<and> slope0 P = Some ?raw \<and> anyValid P = Some ?v \<and> slope P = Some ?s \<and>
     (\<forall>p. pixel_value ?f ''scale'' p = ?scale p) \<and>
     bands ?raw = [(''NDVI_slope_per_year'', ?scale)] \<and> bands ?v = [(''NDVI_min'', ?vb)] \<and>
     bands ?s = [(''NDVI_slope_per_year'', applyMask ?scale ?vb)]"
    using f s0 v s fs vb by simp
  then show ?thesis by blast
qed

lemma series_of_years:
  assumes "yearlyList P = Some ys"
  shows "pairSeries ys p = yearNDVI P p" and "ndviSeries ys p = map snd (yearNDVI P p)"
proof -
  have len: "length ys = length years" by (rule yearlyList_nth(1)[OF assms])
  have img: "yearlyImage P (years ! k) = Some (ys ! k)" if "k < length years" for k
    using yearlyList_nth(2)[OF assms that] .
  have t: "pixel_value (ys ! k) ''t'' p = Some (of_int (years ! k))" if "k < length years" for k
    using yearly_structure(1)[OF img[OF that]] by (auto simp: two_band_values)
  let ?F = "\<lambda>y. case yearlyImage P y of None \<Rightarrow> None
            | Some i \<Rightarrow> map_option (Pair (real_of_int y)) (pixel_value i ''NDVI'' p)"
  have eq: "map (\<lambda>i. case pixel_value i ''t'' p of None \<Rightarrow> None
                        | Some x \<Rightarrow> map_option (Pair x) (pixel_value i ''NDVI'' p)) ys
            = map ?F years"
    using len img t by (auto simp: list_eq_iff_nth_eq)
  show ps: "pairSeries ys p = yearNDVI P p"
    unfolding pairSeries_def yearNDVI_def
    by (subst map_filter_via_map, subst eq, subst map_filter_via_map[symmetric], rule refl)
  have "ndviSeries ys p = map snd (pairSeries ys p)"
  proof -
    have "\<forall>i \<in> set ys. pixel_value i ''t'' p \<noteq> None"
      using t len by (auto simp: in_set_conv_nth)
    then show ?thesis
      unfolding ndviSeries_def pairSeries_def
      by (induction ys) (auto split: option.splits)
  qed
  with ps show "ndviSeries ys p = map snd (yearNDVI P p)" by simp
qed

lemma slope_value:
  assumes "yearlyList P = Some ys"
  shows "\<exists>s. slope P = Some s \<and> bands s = [(''NDVI_slope_per_year'', slopeAt P)] \<and>
     (\<forall>p. slopeAt P p =
        (case linearFit (yearNDVI P p) of None \<Rightarrow> None
         | Some ab \<Rightarrow> (case minimum (map snd (yearNDVI P p)) of None \<Rightarrow> None
                        | Some m \<Rightarrow> if m \<noteq> - 9999 then Some (fst ab) else None)))"
proof -
  from trend_value[OF assms] obtain s where s: "slope P = Some s"
    "bands s = [(''NDVI_slope_per_year'',
                 applyMask (\<lambda>p. map_option fst (linearFit (pairSeries ys p)))
                   (\<lambda>p. map_option (\<lambda>m. truth (m \<noteq> - 9999)) (minimum (ndviSeries ys p))))]"
    by blast
  have at: "slopeAt P = applyMask (\<lambda>p. map_option fst (linearFit (pairSeries ys p)))
                   (\<lambda>p. map_option (\<lambda>m. truth (m \<noteq> - 9999)) (minimum (ndviSeries ys p)))"
    by (rule ext) (simp add: slopeAt_def s pixel_value_def band_def)
  have "slopeAt P p =
        (case linearFit (yearNDVI P p) of None \<Rightarrow> None
         | Some ab \<Rightarrow> (case minimum (map snd (yearNDVI P p)) of None \<Rightarrow> None
                        | Some m \<Rightarrow> if m \<noteq> - 9999 then Some (fst ab) else None))" for p
    by (simp add: at applyMask_def series_of_years[OF assms] truth_def split: option.splits)
  with s at show ?thesis by auto
qed

text \<open>
  Claim C2. When the yearly images exist, so do the fit and the slope. At every pixel
  the band \<^verbatim>\<open>scale\<close> of the fit is the slope of the line fitted to the pairs (year, index
  of that year's composite) of the years in which the composite is valid there; that
  line has the least sum of squared residuals among all lines; the band
  \<^verbatim>\<open>NDVI_slope_per_year\<close> is that slope, first everywhere, and in the final map
  wherever the final map is valid.
\<close>

theorem slope_is_least_squares_fit:
  assumes "yearlyList P = Some ys"
  shows "\<exists>f s0 s. fit P = Some f \<and> slope0 P = Some s0 \<and> slope P = Some s \<and>
     (\<forall>p. pixel_value f ''scale'' p = map_option fst (linearFit (yearNDVI P p))) \<and>
     (\<forall>p. pixel_value s0 ''NDVI_slope_per_year'' p = pixel_value f ''scale'' p) \<and>
     (\<forall>p v. pixel_value s ''NDVI_slope_per_year'' p = Some v \<longrightarrow>
            pixel_value f ''scale'' p = Some v) \<and>
     (\<forall>p a b a' b'. linearFit (yearNDVI P p) = Some (a, b) \<longrightarrow>
            sse (yearNDVI P p) a b \<le> sse (yearNDVI P p) a' b')"
proof -
  from trend_value[OF assms] obtain f s0 s where t: "fit P = Some f" "slope0 P = Some s0"
    "slope P = Some s"
    "\<forall>p. pixel_value f ''scale'' p = map_option fst (linearFit (pairSeries ys p))"
    "bands s0 = [(''NDVI_slope_per_year'', \<lambda>p. map_option fst (linearFit (pairSeries ys p)))]"
    "bands s = [(''NDVI_slope_per_year'',
                 applyMask (\<lambda>p. map_option fst (linearFit (pairSeries ys p)))
                   (\<lambda>p. map_option (\<lambda>m. truth (m \<noteq> - 9999)) (minimum (ndviSeries ys p))))]"
    by blast
  have ps: "pairSeries ys p = yearNDVI P p" for p by (rule series_of_years(1)[OF assms])
  have 1: "pixel_value f ''scale'' p = map_option fst (linearFit (yearNDVI P p))" for p
    using t(4)[rule_format, of p] by (simp add: ps)
  have "pixel_value s0 ''NDVI_slope_per_year'' p = map_option fst (linearFit (yearNDVI P p))" for p
    by (simp add: pixel_value_def band_def t(5) ps)
  then have 2: "pixel_value s0 ''NDVI_slope_per_year'' p = pixel_value f ''scale'' p" for p
    by (simp add: 1)
  have "map_option fst (linearFit (yearNDVI P p)) = Some v"
    if "pixel_value s ''NDVI_slope_per_year'' p = Some v" for p v
    using that by (auto simp: pixel_value_def band_def t(6) ps applyMask_def
        split: option.splits if_splits)
  then have 3: "pixel_value f ''scale'' p = Some v"
    if "pixel_value s ''NDVI_slope_per_year'' p = Some v" for p v
    using that by (simp add: 1)
  have 4: "sse (yearNDVI P p) a b \<le> sse (yearNDVI P p) a' b'"
    if "linearFit (yearNDVI P p) = Some (a, b)" for p a b a' b'
    by (rule linearFit_least_squares[OF that])
  from t(1,2,3) 1 2 3 4 show ?thesis by blast
qed


subsection \<open>The trend in terms of the stored images\<close>

lemma yearNDVI_of_sources:
  assumes "wellFormed P" "noIndexBand P"
  shows "yearNDVI P p =
           List.map_filter (\<lambda>y. map_option (Pair (of_int y)) (compositeNDVI P y p)) years"
proof -
  have "(case yearlyImage P y of None \<Rightarrow> None
         | Some i \<Rightarrow> map_option (Pair (real_of_int y)) (pixel_value i ''NDVI'' p))
        = map_option (Pair (of_int y)) (compositeNDVI P y p)" for y
  proof -
    obtain img where i: "yearlyImage P y = Some img"
      "\<forall>p. pixel_value img ''NDVI'' p = compositeNDVI P y p"
      using composite_of_sources[OF assms, of y] by blast
    show ?thesis by (simp add: i(1) i(2)[rule_format, of p])
  qed
  then show ?thesis by (simp add: yearNDVI_def)
qed

lemma demo_west:
  assumes "88.35 \<le> x" "x < 88.45" "23.05 \<le> u" "u \<le> 23.35"
  shows "yearNDVI demo (x, u) =
           [(2018, 0), (2019, 1 / 5), (2020, 2 / 5), (2021, 3 / 5), (2022, 4 / 5), (2023, 1)]"
  using assms
  by (simp add: yearNDVI_of_sources[OF wellFormed_demo noIndexBand_demo] years_list
      compositeNDVI_def sources_demo ndviOf_scene landClass_def nd_def median_def)

lemma demo_east:
  assumes "88.45 \<le> x" "x \<le> 88.55" "23.05 \<le> u" "u \<le> 23.35"
  shows "yearNDVI demo (x, u) =
           [(2018, 0), (2019, - (1 / 5)), (2020, - (2 / 5)), (2021, - (3 / 5)),
            (2022, - (4 / 5)), (2023, - 1)]"
  using assms
  by (simp add: yearNDVI_of_sources[OF wellFormed_demo noIndexBand_demo] years_list
      compositeNDVI_def sources_demo ndviOf_scene landClass_def nd_def median_def)

lemma demo_outside:
  assumes "88.55 < x"
  shows "yearNDVI demo (x, u) = []"
  using assms
  by (simp add: yearNDVI_of_sources[OF wellFormed_demo noIndexBand_demo] years_list
      compositeNDVI_def)

lemma fit_west:
  "linearFit [(2018, 0), (2019, 1 / 5), (2020, 2 / 5), (2021, 3 / 5), (2022, 4 / 5), (2023, 1)]
     = Some (1 / 5, - (2018 / 5))"
  by (simp add: linearFit_def Let_def)

lemma fit_east:
  "linearFit [(2018, 0), (2019, - (1 / 5)), (2020, - (2 / 5)), (2021, - (3 / 5)),
              (2022, - (4 / 5)), (2023, - 1)]
     = Some (- (1 / 5), 2018 / 5)"
  by (simp add: linearFit_def Let_def)

section \<open>Years without images\<close>

lemma nd_bounds:
  assumes "nd u v = Some r"
  shows "- 1 \<le> r \<and> r \<le> 1"
proof -
  from assms have u: "0 \<le> u" and v: "0 \<le> v" and s: "u + v \<noteq> 0" and r: "r = (u - v) / (u + v)"
    by (auto simp: nd_def split: if_splits)
  from u v s have pos: "0 < u + v" by linarith
  have "- 1 * (u + v) \<le> u - v" using u by simp
  then have "- 1 \<le> (u - v) / (u + v)" using pos by (simp only: pos_le_divide_eq)
  moreover have "u - v \<le> 1 * (u + v)" using v by simp
  then have "(u - v) / (u + v) \<le> 1" using pos by (simp only: pos_divide_le_eq)
  ultimately show ?thesis by (simp add: r)
qed

lemma ndviOf_bounds: "ndviOf src p = Some r \<Longrightarrow> - 1 \<le> r \<and> r \<le> 1"
  by (auto simp: ndviOf_def split: option.splits if_splits dest: nd_bounds)

lemma median_bounds:
  assumes "median xs = Some m" "\<forall>x \<in> set xs. lo \<le> x \<and> x \<le> hi"
  shows "lo \<le> m \<and> m \<le> hi"
proof -
  let ?s = "sort xs"
  let ?n = "length xs"
  from assms(1) have pos: "0 < ?n" by (auto simp: median_def Let_def split: if_splits)
  have el: "lo \<le> ?s ! k \<and> ?s ! k \<le> hi" if "k < ?n" for k
  proof -
    from that have "?s ! k \<in> set ?s" by (intro nth_mem) simp
    then show ?thesis using assms(2) by simp
  qed
  have k1: "?n div 2 < ?n" using pos by arith
  have k2: "?n div 2 - 1 < ?n" using pos by arith
  from assms(1) have "m = ?s ! (?n div 2) \<or> m = (?s ! (?n div 2 - 1) + ?s ! (?n div 2)) / 2"
    by (auto simp: median_def Let_def split: if_splits)
  then show ?thesis
  proof
    assume "m = ?s ! (?n div 2)"
    with el[OF k1] show ?thesis by simp
  next
    assume "m = (?s ! (?n div 2 - 1) + ?s ! (?n div 2)) / 2"
    with el[OF k1] el[OF k2] show ?thesis by (simp add: field_simps)
  qed
qed

lemma set_map_filter: "set (List.map_filter f xs) = {y. \<exists>x \<in> set xs. f x = Some y}"
  by (induction xs) (auto split: option.splits)

lemma composite_bounds:
  assumes "compositeNDVI P y p = Some r"
  shows "- 9999 \<le> r"
proof (cases "sources P y = []")
  case True
  with assms show ?thesis by (simp add: compositeNDVI_def split: if_splits)
next
  case False
  with assms have m: "median (List.map_filter (\<lambda>src. ndviOf src p) (sources P y)) = Some r"
    by (simp add: compositeNDVI_def split: if_splits)
  have "\<forall>x \<in> set (List.map_filter (\<lambda>src. ndviOf src p) (sources P y)). - 1 \<le> x \<and> x \<le> 1"
    by (auto simp: set_map_filter dest: ndviOf_bounds)
  from median_bounds[OF m this] show ?thesis by simp
qed

lemma minimum_iff:
  assumes "\<forall>x \<in> set xs. c \<le> x"
  shows "minimum xs = Some c \<longleftrightarrow> c \<in> set xs"
proof (cases xs)
  case Nil
  then show ?thesis by (simp add: minimum_def)
next
  case (Cons x r)
  have "fold min r x = Min (set (x # r))" by (simp only: Min.set_eq_fold)
  then have "minimum xs = Some (Min (set xs))" by (simp add: minimum_def Cons)
  moreover have "Min (set xs) = c \<longleftrightarrow> c \<in> set xs"
    using assms Cons by (auto simp: Min_eq_iff)
  ultimately show ?thesis by auto
qed

lemma masked_where_minimum_is_nodata:
  assumes "yearlyList P = Some ys" "minimum (ndviSeries ys p) = Some (- 9999)"
  shows "slopeAt P p = None"
proof -
  from slope_value[OF assms(1)] have "slopeAt P p =
        (case linearFit (yearNDVI P p) of None \<Rightarrow> None
         | Some ab \<Rightarrow> (case minimum (map snd (yearNDVI P p)) of None \<Rightarrow> None
                        | Some m \<Rightarrow> if m \<noteq> - 9999 then Some (fst ab) else None))"
    by blast
  with assms(2) show ?thesis
    by (simp add: series_of_years(2)[OF assms(1)] split: option.splits)
qed

lemma yearly_values_bounded:
  assumes "wellFormed P" "noIndexBand P" "yearlyList P = Some ys"
  shows "\<forall>x \<in> set (ndviSeries ys p). - 9999 \<le> x"
proof
  fix x assume "x \<in> set (ndviSeries ys p)"
  then obtain i where i: "i \<in> set ys" "pixel_value i ''NDVI'' p = Some x"
    by (auto simp: ndviSeries_def set_map_filter)
  from i(1) obtain k where k: "k < length ys" "ys ! k = i" by (auto simp: in_set_conv_nth)
  with yearlyList_nth[OF assms(3)] have "yearlyImage P (years ! k) = Some i" by auto
  moreover obtain img where "yearlyImage P (years ! k) = Some img"
    "\<forall>p. pixel_value img ''NDVI'' p = compositeNDVI P (years ! k) p"
    using composite_of_sources[OF assms(1,2), of "years ! k"] by blast
  ultimately have "\<forall>p. pixel_value i ''NDVI'' p = compositeNDVI P (years ! k) p" by simp
  then have "compositeNDVI P (years ! k) p = Some x" using i(2) by metis
  then show "- 9999 \<le> x" by (rule composite_bounds)
qed

text \<open>
  Claim C10. The composite of a year whose collection is empty is the constant - 9999
  on the region, named \<^verbatim>\<open>NDVI\<close>. The list of yearly images, which exists when every
  stored image has the two bands of the index, has one image per year from \<open>yearStart\<close>
  to \<open>yearEnd\<close>. The final slope is masked at every pixel where the minimum of the
  yearly values is - 9999; and, the stored images having no band \<^verbatim>\<open>NDVI\<close> of their
  own, that minimum is - 9999 exactly where the composite of some year is - 9999.
\<close>

theorem nodata_years_mask_the_slope:
  "(\<forall>y. collectionForYear P y = Some [] \<longrightarrow>
      (\<exists>img. yearlyImage P y = Some img \<and>
         (\<forall>p. pixel_value img ''NDVI'' p = (if inside region p then Some (- 9999) else None)))) \<and>
   (wellFormed P \<longrightarrow> (\<exists>ys. yearlyList P = Some ys)) \<and>
   (\<forall>ys. yearlyList P = Some ys \<longrightarrow>
      length ys = nat (yearEnd - yearStart + 1) \<and>
      (\<exists>s. slope P = Some s \<and>
         (\<forall>p. minimum (ndviSeries ys p) = Some (- 9999) \<longrightarrow>
               pixel_value s ''NDVI_slope_per_year'' p = None))) \<and>
   (wellFormed P \<and> noIndexBand P \<longrightarrow>
      (\<forall>ys p. yearlyList P = Some ys \<longrightarrow>
         (minimum (ndviSeries ys p) = Some (- 9999) \<longleftrightarrow>
          (\<exists>i \<in> set ys. pixel_value i ''NDVI'' p = Some (- 9999)))))"
proof (intro conjI allI impI)
  fix y assume "collectionForYear P y = Some []"
  from yearly_pixels[OF this]
  show "\<exists>img. yearlyImage P y = Some img \<and>
         (\<forall>p. pixel_value img ''NDVI'' p = (if inside region p then Some (- 9999) else None))"
    by auto
next
  assume "wellFormed P"
  then show "\<exists>ys. yearlyList P = Some ys" by (rule yearlyList_total)
next
  fix ys assume ys: "yearlyList P = Some ys"
  show "length ys = nat (yearEnd - yearStart + 1)"
    using yearlyList_nth(1)[OF ys] by (simp add: years_list yearEnd_def yearStart_def)
  from slope_value[OF ys] obtain s where s: "slope P = Some s" by blast
  have "pixel_value s ''NDVI_slope_per_year'' p = None"
    if "minimum (ndviSeries ys p) = Some (- 9999)" for p
    using masked_where_minimum_is_nodata[OF ys that] by (simp add: slopeAt_def s)
  with s show "\<exists>s. slope P = Some s \<and>
         (\<forall>p. minimum (ndviSeries ys p) = Some (- 9999) \<longrightarrow>
               pixel_value s ''NDVI_slope_per_year'' p = None)"
    by blast
next
  fix ys p assume wf: "wellFormed P \<and> noIndexBand P" and ys: "yearlyList P = Some ys"
  have "\<forall>x \<in> set (ndviSeries ys p). - 9999 \<le> x"
    using yearly_values_bounded wf ys by blast
  from minimum_iff[OF this]
  show "minimum (ndviSeries ys p) = Some (- 9999) \<longleftrightarrow>
          (\<exists>i \<in> set ys. pixel_value i ''NDVI'' p = Some (- 9999))"
    by (auto simp: ndviSeries_def set_map_filter)
qed

lemma wellFormed_demo_gap: "wellFormed demo_gap"
  by (simp add: wellFormed_def demo_gap_def demo_def scene_simps contains_def)

lemma noIndexBand_demo_gap: "noIndexBand demo_gap"
  by (simp add: noIndexBand_def demo_gap_def demo_def scene_simps contains_def)

lemma sources_demo_gap: "sources demo_gap 2020 = []"
  by (simp add: sources_def demo_gap_def demo_def inYear_scene)

theorem nodata_years_mask_the_slope_witness:
  "wellFormed demo_gap \<and> noIndexBand demo_gap \<and> collectionForYear demo_gap 2020 = Some [] \<and>
   (\<exists>img. yearlyImage demo_gap 2020 = Some img \<and>
           pixel_value img ''NDVI'' (88.4, 23.1) = Some (- 9999)) \<and>
   (\<exists>ys s. yearlyList demo_gap = Some ys \<and> length ys = 6 \<and> slope demo_gap = Some s \<and>
            minimum (ndviSeries ys (88.4, 23.1)) = Some (- 9999) \<and>
            pixel_value s ''NDVI_slope_per_year'' (88.4, 23.1) = None)"
proof -
  note T = nodata_years_mask_the_slope[of demo_gap]
  note wf = wellFormed_demo_gap and no = noIndexBand_demo_gap
  obtain col where col: "collectionForYear demo_gap 2020 = Some col"
    using collection_total[OF wf] by blast
  with series_of_sources(2)[OF wf no col] have empty: "collectionForYear demo_gap 2020 = Some []"
    by (simp add: sources_demo_gap)
  from T empty obtain img where img: "yearlyImage demo_gap 2020 = Some img"
    "\<forall>p. pixel_value img ''NDVI'' p = (if inside region p then Some (- 9999) else None)"
    by blast
  have v: "pixel_value img ''NDVI'' (88.4, 23.1) = Some (- 9999)"
    using img(2)[rule_format, of "(88.4, 23.1)"] by (simp add: region_def)
  from T wf obtain ys where ys: "yearlyList demo_gap = Some ys" by blast
  from T ys have len: "length ys = nat (yearEnd - yearStart + 1)" by blast
  from T ys obtain s where s: "slope demo_gap = Some s"
    "\<forall>p. minimum (ndviSeries ys p) = Some (- 9999) \<longrightarrow>
               pixel_value s ''NDVI_slope_per_year'' p = None"
    by blast
  have "yearlyImage demo_gap (years ! 2) = Some (ys ! 2)"
    by (rule yearlyList_nth(2)[OF ys]) (simp add: years_list)
  then have "ys ! 2 = img" using img(1) by (simp add: years_list)
  moreover have "2 < length ys" using len by (simp add: yearEnd_def yearStart_def)
  ultimately have "img \<in> set ys" using nth_mem by metis
  with v have "\<exists>i \<in> set ys. pixel_value i ''NDVI'' (88.4, 23.1) = Some (- 9999)" by blast
  with T wf no ys have m: "minimum (ndviSeries ys (88.4, 23.1)) = Some (- 9999)" by blast
  with s(2) have "pixel_value s ''NDVI_slope_per_year'' (88.4, 23.1) = None" by blast
  with wf no empty img(1) v ys len s(1) m show ?thesis
    by (auto simp: yearEnd_def yearStart_def)
qed


section \<open>Regional statistics\<close>

lemma studyScale_value: "studyScale = 10"
  by (simp add: studyScale_def sensor_def)

lemma regionGrid_region: "regionGrid P = filter (inside region) (grid P studyScale)"
  by (simp add: regionGrid_def region_def studyScale_value)

lemma regionPixels_value:
  assumes "length (regionGrid P) \<le> maxPixels"
  shows "regionPixels P region studyScale True maxPixels = Some (regionGrid P)"
  using assms by (simp add: regionPixels_def regionGrid_region Let_def)

lemma reduceRegion_value:
  assumes "length (regionGrid P) \<le> maxPixels"
  shows "reduceRegion P r img region studyScale True maxPixels =
           Some (\<lambda>n. case band img n of None \<Rightarrow> None
                      | Some b \<Rightarrow> r (List.map_filter b (regionGrid P)))"
  by (simp add: reduceRegion_def regionPixels_value[OF assms])

subsection \<open>The mean of each year and the chart\<close>

lemma feature_of_year:
  assumes "bands img = [(''NDVI'', b), (''t'', c)]" "length (regionGrid P) \<le> maxPixels"
  shows "(do { let yr = get_property img ''year'';
               ndvi \<leftarrow> select img [''NDVI''];
               m \<leftarrow> reduceRegion P mean ndvi region studyScale True maxPixels;
               Some \<lparr>fproperties = [(''year'', yr), (''meanNDVI'', m ''NDVI'')]\<rparr> })
         = Some \<lparr>fproperties = [(''year'', get_property img ''year''),
                                (''meanNDVI'', regionalMean P img)]\<rparr>"
proof -
  have "(\<lambda>p. pixel_value img ''NDVI'' p) = b"
    by (rule ext) (simp add: two_band_values[OF assms(1)])
  then have "regionalMean P img = mean (List.map_filter b (regionGrid P))"
    by (simp add: regionalMean_def)
  moreover have "band (img\<lparr>bands := [(''NDVI'', b)]\<rparr>) ''NDVI'' = Some b"
    by (simp add: band_def)
  ultimately show ?thesis
    by (simp add: select_one two_band_values[OF assms(1)] reduceRegion_value[OF assms(2)])
qed

lemma meanPerYearFC_value:
  assumes "yearlyList P = Some ys" "length (regionGrid P) \<le> maxPixels"
  shows "meanPerYearFC P =
           Some (map (\<lambda>img. \<lparr>fproperties = [(''year'', get_property img ''year''),
                                             (''meanNDVI'', regionalMean P img)]\<rparr>) ys)"
proof -
  have yc: "yearCollection P = Some ys" by (simp add: yearCollection_def assms(1) fromImages_def)
  show ?thesis
    unfolding meanPerYearFC_def yc bind.bind_lunit
  proof (rule ic_map_eqI)
    fix img assume "img \<in> set ys"
    with yearlyList_two_bands[OF assms(1)] obtain b c where "bands img = [(''NDVI'', b), (''t'', c)]"
      by blast
    from feature_of_year[OF this assms(2)]
    show "(do { let yr = get_property img ''year'';
               ndvi \<leftarrow> select img [''NDVI''];
               m \<leftarrow> reduceRegion P mean ndvi region studyScale True maxPixels;
               Some \<lparr>fproperties = [(''year'', yr), (''meanNDVI'', m ''NDVI'')]\<rparr> })
         = Some \<lparr>fproperties = [(''year'', get_property img ''year''),
                                (''meanNDVI'', regionalMean P img)]\<rparr>" .
  qed
qed

text \<open>
  Claim C5. When the yearly images exist and the region has no more than \<open>maxPixels\<close>
  pixels at the scale of the study, the script reports one feature per year of the
  study, in the order of the years; the feature of a year holds that year and the mean
  of the valid \<^verbatim>\<open>NDVI\<close> values of that year's composite over the pixels of the region at
  that scale; and the rows of the chart are the pairs (year, meanNDVI) of these
  features.
\<close>

theorem mean_per_year_and_chart:
  assumes "yearlyList P = Some ys" "length (regionGrid P) \<le> maxPixels"
  shows "\<exists>fc ch. meanPerYearFC P = Some fc \<and> chart P = Some ch \<and>
     regionGrid P = filter (inside region) (grid P studyScale) \<and>
     length fc = length years \<and>
     (\<forall>k < length years. \<exists>img. yearlyImage P (years ! k) = Some img \<and>
          fproperties (fc ! k) =
            [(''year'', Some (of_int (years ! k))), (''meanNDVI'', regionalMean P img)]) \<and>
     rows ch = map (\<lambda>f. (feature_get f ''year'', [feature_get f ''meanNDVI''])) fc"
proof -
  let ?F = "\<lambda>img. \<lparr>fproperties = [(''year'', get_property img ''year''),
                                   (''meanNDVI'', regionalMean P img)]\<rparr>"
  have fc: "meanPerYearFC P = Some (map ?F ys)" by (rule meanPerYearFC_value[OF assms])
  have len: "length ys = length years" by (rule yearlyList_nth(1)[OF assms(1)])
  have each: "\<exists>img. yearlyImage P (years ! k) = Some img \<and>
          fproperties (map ?F ys ! k) =
            [(''year'', Some (of_int (years ! k))), (''meanNDVI'', regionalMean P img)]"
    if k: "k < length years" for k
  proof -
    have img: "yearlyImage P (years ! k) = Some (ys ! k)" by (rule yearlyList_nth(2)[OF assms(1) k])
    from yearly_structure(2)[OF img] k len
    have "fproperties (map ?F ys ! k) =
            [(''year'', Some (of_int (years ! k))), (''meanNDVI'', regionalMean P (ys ! k))]"
      by simp
    with img show ?thesis by blast
  qed
  obtain ch where ch: "chart P = Some ch"
    "rows ch = map (\<lambda>f. (feature_get f ''year'', [feature_get f ''meanNDVI''])) (map ?F ys)"
    by (simp add: chart_def fc byFeature_def setOptions_def)
  from fc ch each len regionGrid_region[of P] show ?thesis by auto
qed

lemma composite_demo:
  "compositeNDVI demo 2019 (x, u) =
     (if 88.35 \<le> x \<and> x \<le> 88.55 \<and> 23.05 \<le> u \<and> u \<le> 23.35
      then Some (if x < 88.45 then 1 / 5 else - (1 / 5)) else None)"
  by (simp add: compositeNDVI_def sources_demo ndviOf_scene landClass_def nd_def median_def)

lemma regionGrid_demo: "regionGrid demo = [(88.4, 23.1), (88.42, 23.3), (88.5, 23.2)]"
  by (simp add: regionGrid_def demo_def)

lemma bound_demo: "length (regionGrid demo) \<le> maxPixels"
  by (simp add: regionGrid_demo maxPixels_def)

theorem mean_per_year_and_chart_witness:
  "length (regionGrid demo) \<le> maxPixels \<and>
   (\<exists>ys fc ch. yearlyList demo = Some ys \<and> meanPerYearFC demo = Some fc \<and>
      chart demo = Some ch \<and> length fc = 6 \<and>
      fproperties (fc ! 1) = [(''year'', Some 2019), (''meanNDVI'', Some (1 / 15))] \<and>
      rows ch ! 1 = (Some 2019, [Some (1 / 15)]))"
proof -
  obtain ys where ys: "yearlyList demo = Some ys"
    using yearlyList_total[OF wellFormed_demo] by blast
  from mean_per_year_and_chart[OF ys bound_demo]
  obtain fc ch where r: "meanPerYearFC demo = Some fc" "chart demo = Some ch"
    "length fc = length years"
    "\<forall>k < length years. \<exists>img. yearlyImage demo (years ! k) = Some img \<and>
          fproperties (fc ! k) =
            [(''year'', Some (of_int (years ! k))), (''meanNDVI'', regionalMean demo img)]"
    "rows ch = map (\<lambda>f. (feature_get f ''year'', [feature_get f ''meanNDVI''])) fc"
    by blast
  from r(4) obtain img where img: "yearlyImage demo 2019 = Some img"
    "fproperties (fc ! 1) = [(''year'', Some 2019), (''meanNDVI'', regionalMean demo img)]"
    by (auto simp: years_list)
  obtain img' where i': "yearlyImage demo 2019 = Some img'"
    "\<forall>p. pixel_value img' ''NDVI'' p = compositeNDVI demo 2019 p"
    using composite_of_sources[OF wellFormed_demo noIndexBand_demo, of 2019] by blast
  from img(1) i'(1) have "img' = img" by simp
  then have px: "pixel_value img ''NDVI'' p = compositeNDVI demo 2019 p" for p
    using i'(2)[rule_format, of p] by simp
  have m: "regionalMean demo img = Some (1 / 15)"
    by (simp add: regionalMean_def regionGrid_demo px composite_demo mean_def)
  have l: "length fc = 6" using r(3) by (simp add: years_list)
  then have "rows ch ! 1 = (feature_get (fc ! 1) ''year'', [feature_get (fc ! 1) ''meanNDVI''])"
    by (simp add: r(5))
  then have "rows ch ! 1 = (Some 2019, [Some (1 / 15)])"
    using img(2) m by (simp add: feature_get_def)
  with bound_demo ys r(1,2) l img(2) m show ?thesis by auto
qed

subsection \<open>The areas of rising and falling index\<close>

lemma area_sum:
  "sum_list (List.map_filter
      (bandOp2 (\<lambda>x y. x * y) (\<lambda>p. map_option (\<lambda>v. truth (R v)) (sb p)) (\<lambda>p. Some (area p))) px)
   = sum_list (map area (filter (\<lambda>p. case sb p of None \<Rightarrow> False | Some v \<Rightarrow> R v) px))"
  by (induction px) (auto simp: bandOp2_def truth_def split: option.splits)

lemma area_dictionary:
  assumes "bands s = [(''NDVI_slope_per_year'', slopeAt P)]"
    and "bands g = [(''NDVI_slope_per_year'', \<lambda>p. map_option (\<lambda>v. truth (R v)) (slopeAt P p))]"
    and "length (regionGrid P) \<le> maxPixels"
  shows "\<exists>d. (multiply g (pixelArea P) \<bind>
               (\<lambda>a. reduceRegion P total a region studyScale True maxPixels)) = Some d \<and>
             d ''NDVI_slope_per_year'' = Some (areaWhere P R) \<and>
             dom d = {''NDVI_slope_per_year''}"
proof -
  let ?b = "bandOp2 (\<lambda>x y. x * y) (\<lambda>p. map_option (\<lambda>v. truth (R v)) (slopeAt P p))
              (\<lambda>p. Some (cellArea P p))"
  let ?a = "g\<lparr>bands := [(''NDVI_slope_per_year'', ?b)]\<rparr>"
  have m: "multiply g (pixelArea P) = Some ?a"
    by (simp add: multiply_def binop_def pixelArea_def assms(2))
  let ?d = "\<lambda>n. case band ?a n of None \<Rightarrow> None
                | Some b \<Rightarrow> total (List.map_filter b (regionGrid P))"
  have d: "(multiply g (pixelArea P) \<bind>
               (\<lambda>a. reduceRegion P total a region studyScale True maxPixels)) = Some ?d"
    by (simp add: m reduceRegion_value[OF assms(3)])
  have v: "?d ''NDVI_slope_per_year'' = Some (areaWhere P R)"
    by (simp add: band_def total_def area_sum areaWhere_def)
  have "dom ?d = {''NDVI_slope_per_year''}"
    by (auto simp: band_def total_def split: if_splits)
  with d v show ?thesis by blast
qed

lemma area_value:
  assumes "yearlyList P = Some ys" "length (regionGrid P) \<le> maxPixels"
  shows "\<exists>pos neg. areaPos P = Some pos \<and> areaNeg P = Some neg \<and>
     pos ''NDVI_slope_per_year'' = Some (areaWhere P (\<lambda>v. 0 < v)) \<and>
     neg ''NDVI_slope_per_year'' = Some (areaWhere P (\<lambda>v. v < 0)) \<and>
     dom pos = {''NDVI_slope_per_year''} \<and> dom neg = {''NDVI_slope_per_year''}"
proof -
  from slope_value[OF assms(1)] obtain s where s: "slope P = Some s"
    "bands s = [(''NDVI_slope_per_year'', slopeAt P)]" by blast
  have g: "bands (img_gt s 0) =
      [(''NDVI_slope_per_year'', \<lambda>p. map_option (\<lambda>v. truth (0 < v)) (slopeAt P p))]"
    by (simp add: img_gt_def mapBands_def s(2))
  have l: "bands (img_lt s 0) =
      [(''NDVI_slope_per_year'', \<lambda>p. map_option (\<lambda>v. truth (v < 0)) (slopeAt P p))]"
    by (simp add: img_lt_def mapBands_def s(2))
  from area_dictionary[OF s(2) g assms(2)] obtain pos where
    pos: "areaPos P = Some pos" "pos ''NDVI_slope_per_year'' = Some (areaWhere P (\<lambda>v. 0 < v))"
      "dom pos = {''NDVI_slope_per_year''}"
    by (auto simp: areaPos_def s(1))
  from area_dictionary[OF s(2) l assms(2)] obtain neg where
    neg: "areaNeg P = Some neg" "neg ''NDVI_slope_per_year'' = Some (areaWhere P (\<lambda>v. v < 0))"
      "dom neg = {''NDVI_slope_per_year''}"
    by (auto simp: areaNeg_def s(1))
  from pos neg show ?thesis by blast
qed

lemma areaWhere_ex:
  "areaWhere P R =
      sum_list (map (cellArea P) (filter (\<lambda>p. \<exists>v. slopeAt P p = Some v \<and> R v) (regionGrid P)))"
proof -
  have "(\<lambda>p. case slopeAt P p of None \<Rightarrow> False | Some v \<Rightarrow> R v)
          = (\<lambda>p. \<exists>v. slopeAt P p = Some v \<and> R v)"
    by (rule ext) (simp split: option.splits)
  then show ?thesis by (simp add: areaWhere_def)
qed

text \<open>
  Claim C6. When the yearly images exist and the region has no more than \<open>maxPixels\<close>
  pixels at the scale of the study, each of the two reported dictionaries has the one
  entry \<^verbatim>\<open>NDVI_slope_per_year\<close>: the sum of the cell areas of the pixels of the region at
  that scale whose final slope is valid and greater than 0, and the same sum for the
  slopes less than 0.
\<close>

theorem trend_areas:
  assumes "yearlyList P = Some ys" "length (regionGrid P) \<le> maxPixels"
  shows "\<exists>pos neg. areaPos P = Some pos \<and> areaNeg P = Some neg \<and>
     regionGrid P = filter (inside region) (grid P studyScale) \<and>
     pos ''NDVI_slope_per_year'' =
       Some (sum_list (map (cellArea P)
          (filter (\<lambda>p. \<exists>v. slopeAt P p = Some v \<and> 0 < v) (regionGrid P)))) \<and>
     neg ''NDVI_slope_per_year'' =
       Some (sum_list (map (cellArea P)
          (filter (\<lambda>p. \<exists>v. slopeAt P p = Some v \<and> v < 0) (regionGrid P)))) \<and>
     dom pos = {''NDVI_slope_per_year''} \<and> dom neg = {''NDVI_slope_per_year''}"
proof -
  note w = areaWhere_ex
  from area_value[OF assms] obtain pos neg where r: "areaPos P = Some pos" "areaNeg P = Some neg"
     "pos ''NDVI_slope_per_year'' = Some (areaWhere P (\<lambda>v. 0 < v))"
     "neg ''NDVI_slope_per_year'' = Some (areaWhere P (\<lambda>v. v < 0))"
     "dom pos = {''NDVI_slope_per_year''}" "dom neg = {''NDVI_slope_per_year''}"
    by (elim exE conjE) (rule that; assumption)
  have h: "areaPos P = Some pos \<and> areaNeg P = Some neg \<and>
     regionGrid P = filter (inside region) (grid P studyScale) \<and>
     pos ''NDVI_slope_per_year'' =
       Some (sum_list (map (cellArea P)
          (filter (\<lambda>p. \<exists>v. slopeAt P p = Some v \<and> 0 < v) (regionGrid P)))) \<and>
     neg ''NDVI_slope_per_year'' =
       Some (sum_list (map (cellArea P)
          (filter (\<lambda>p. \<exists>v. slopeAt P p = Some v \<and> v < 0) (regionGrid P)))) \<and>
     dom pos = {''NDVI_slope_per_year''} \<and> dom neg = {''NDVI_slope_per_year''}"
    using r(1,2) r(3)[unfolded w] r(4)[unfolded w] r(5,6) regionGrid_region[of P] by simp
  show ?thesis by (rule exI[of _ pos], rule exI[of _ neg]) (rule h)
qed

lemma slopeAt_demo_west:
  assumes "88.35 \<le> x" "x < 88.45" "23.05 \<le> u" "u \<le> 23.35"
  shows "slopeAt demo (x, u) = Some (1 / 5)"
proof -
  obtain ys where ys: "yearlyList demo = Some ys"
    using yearlyList_total[OF wellFormed_demo] by blast
  from slope_value[OF ys] have "slopeAt demo (x, u) =
        (case linearFit (yearNDVI demo (x, u)) of None \<Rightarrow> None
         | Some ab \<Rightarrow> (case minimum (map snd (yearNDVI demo (x, u))) of None \<Rightarrow> None
                        | Some m \<Rightarrow> if m \<noteq> - 9999 then Some (fst ab) else None))"
    by blast
  then show ?thesis
    by (simp add: demo_west[OF assms] fit_west minimum_def)
qed

lemma slopeAt_demo_east:
  assumes "88.45 \<le> x" "x \<le> 88.55" "23.05 \<le> u" "u \<le> 23.35"
  shows "slopeAt demo (x, u) = Some (- (1 / 5))"
proof -
  obtain ys where ys: "yearlyList demo = Some ys"
    using yearlyList_total[OF wellFormed_demo] by blast
  from slope_value[OF ys] have "slopeAt demo (x, u) =
        (case linearFit (yearNDVI demo (x, u)) of None \<Rightarrow> None
         | Some ab \<Rightarrow> (case minimum (map snd (yearNDVI demo (x, u))) of None \<Rightarrow> None
                        | Some m \<Rightarrow> if m \<noteq> - 9999 then Some (fst ab) else None))"
    by blast
  then show ?thesis
    by (simp add: demo_east[OF assms] fit_east minimum_def)
qed

lemma slopeAt_demo_grid:
  "slopeAt demo (88.4, 23.1) = Some (1 / 5)" "slopeAt demo (88.42, 23.3) = Some (1 / 5)"
  "slopeAt demo (88.5, 23.2) = Some (- (1 / 5))"
proof -
  show "slopeAt demo (88.4, 23.1) = Some (1 / 5)" by (rule slopeAt_demo_west) simp_all
  show "slopeAt demo (88.42, 23.3) = Some (1 / 5)" by (rule slopeAt_demo_west) simp_all
  show "slopeAt demo (88.5, 23.2) = Some (- (1 / 5))" by (rule slopeAt_demo_east) simp_all
qed

theorem trend_areas_witness:
  "length (regionGrid demo) \<le> maxPixels \<and>
   (\<exists>ys pos neg. yearlyList demo = Some ys \<and> areaPos demo = Some pos \<and>
      areaNeg demo = Some neg \<and> pos ''NDVI_slope_per_year'' = Some 200 \<and>
      neg ''NDVI_slope_per_year'' = Some 100)"
proof -
  obtain ys where ys: "yearlyList demo = Some ys"
    using yearlyList_total[OF wellFormed_demo] by blast
  from trend_areas[OF ys bound_demo] obtain pos neg where
    r: "areaPos demo = Some pos" "areaNeg demo = Some neg"
     "pos ''NDVI_slope_per_year'' =
       Some (sum_list (map (cellArea demo)
          (filter (\<lambda>p. \<exists>v. slopeAt demo p = Some v \<and> 0 < v) (regionGrid demo))))"
     "neg ''NDVI_slope_per_year'' =
       Some (sum_list (map (cellArea demo)
          (filter (\<lambda>p. \<exists>v. slopeAt demo p = Some v \<and> v < 0) (regionGrid demo))))"
    by (elim exE conjE) (rule that; assumption)
  have a: "cellArea demo p = 100" for p by (simp add: demo_def)
  have "areaWhere demo (\<lambda>v. 0 < v) = 200" "areaWhere demo (\<lambda>v. v < 0) = 100"
    using slopeAt_demo_grid by (simp_all add: areaWhere_def regionGrid_demo a)
  then have "pos ''NDVI_slope_per_year'' = Some 200" "neg ''NDVI_slope_per_year'' = Some 100"
    unfolding areaWhere_ex using r(3,4) by simp_all
  then show ?thesis using bound_demo ys r(1,2) by blast
qed

theorem slope_is_least_squares_fit_witness:
  "\<exists>ys f s. yearlyList demo = Some ys \<and> fit demo = Some f \<and> slope demo = Some s \<and>
     pixel_value s ''NDVI_slope_per_year'' (88.4, 23.1) = Some (1 / 5) \<and>
     pixel_value f ''scale'' (88.4, 23.1) = Some (1 / 5) \<and>
     linearFit (yearNDVI demo (88.4, 23.1)) = Some (1 / 5, - (2018 / 5)) \<and>
     sse (yearNDVI demo (88.4, 23.1)) (1 / 5) (- (2018 / 5)) \<le> sse (yearNDVI demo (88.4, 23.1)) 0 (1 / 2)"
proof -
  obtain ys where ys: "yearlyList demo = Some ys"
    using yearlyList_total[OF wellFormed_demo] by blast
  have w: "yearNDVI demo (88.4, 23.1) =
           [(2018, 0), (2019, 1 / 5), (2020, 2 / 5), (2021, 3 / 5), (2022, 4 / 5), (2023, 1)]"
    by (rule demo_west) simp_all
  have lf: "linearFit (yearNDVI demo (88.4, 23.1)) = Some (1 / 5, - (2018 / 5))"
    unfolding w by (rule fit_west)
  from slope_is_least_squares_fit[OF ys]
  obtain f s where f: "fit demo = Some f" "slope demo = Some s"
    "\<forall>p. pixel_value f ''scale'' p = map_option fst (linearFit (yearNDVI demo p))"
    "\<forall>p a b a' b'. linearFit (yearNDVI demo p) = Some (a, b) \<longrightarrow>
            sse (yearNDVI demo p) a b \<le> sse (yearNDVI demo p) a' b'"
    "\<forall>p v. pixel_value s ''NDVI_slope_per_year'' p = Some v \<longrightarrow>
            pixel_value f ''scale'' p = Some v"
    by blast
  have sl: "pixel_value s ''NDVI_slope_per_year'' (88.4, 23.1) = Some (1 / 5)"
    using slopeAt_demo_grid(1) by (simp add: slopeAt_def f(2))
  with f(5) have "pixel_value f ''scale'' (88.4, 23.1) = Some (1 / 5)" by blast
  moreover note sl
  moreover have "sse (yearNDVI demo (88.4, 23.1)) (1 / 5) (- (2018 / 5))
                   \<le> sse (yearNDVI demo (88.4, 23.1)) 0 (1 / 2)"
    using f(4) lf by blast
  ultimately show ?thesis using ys f(1,2) lf by blast
qed


section \<open>The region\<close>

lemma collection_footprints:
  assumes "collectionForYear P y = Some col"
  shows "map footprint col =
           map footprint (filter (\<lambda>img. inYear y img \<and> meets (Rectangle 88.35 23.05 88.55 23.35) img)
                            (catalog P ''COPERNICUS/S2_SR''))"
proof -
  have l: "list_all2 (\<lambda>src out. \<exists>m. maskS2SR src = Some m \<and> addNDVIBands m = Some out)
           (sources P y) col"
    by (rule collection_elements[OF assms])
  then have len: "length (sources P y) = length col" by (rule list_all2_lengthD)
  have "footprint (col ! k) = footprint (sources P y ! k)" if k: "k < length col" for k
  proof -
    from l k len obtain m where "maskS2SR (sources P y ! k) = Some m"
      "addNDVIBands m = Some (col ! k)"
      by (auto simp: list_all2_conv_all_nth)
    then show ?thesis by (rule mask_then_index_values(2))
  qed
  with len have "map footprint col = map footprint (sources P y)"
    by (simp add: list_eq_iff_nth_eq)
  then show ?thesis by (simp add: sources_def)
qed

lemma yearly_clipped:
  assumes "collectionForYear P y = Some col" "yearlyImage P y = Some img"
  shows "footprint img = Some (Rectangle 88.35 23.05 88.55 23.35)"
    and "pixel_value img ''NDVI'' p =
           (if inside (Rectangle 88.35 23.05 88.55 23.35) p
            then (if col = [] then Some (- 9999) else median (ndviSeries col p))
            else None)"
proof -
  from yearly_pixels[OF assms(1)] assms(2)
  have f: "footprint img = Some region"
    and v: "\<forall>p. pixel_value img ''NDVI'' p =
                  (if inside region p
                   then (if col = [] then Some (- 9999) else median (ndviSeries col p))
                   else None)"
    by auto
  from f show "footprint img = Some (Rectangle 88.35 23.05 88.55 23.35)" by (simp add: region_def)
  from v[rule_format, of p]
  show "pixel_value img ''NDVI'' p =
           (if inside (Rectangle 88.35 23.05 88.55 23.35) p
            then (if col = [] then Some (- 9999) else median (ndviSeries col p))
            else None)"
    by (simp add: region_def)
qed

text \<open>
  Claim C4. The region is the rectangle [88.35, 23.05, 88.55, 23.35]; being a constant
  of the model it has this value wherever it is used. The images of a yearly collection
  are, one for one and with their footprints, the stored images of the year whose
  footprint meets this rectangle: none that meets it is left out and none that misses
  it is let in. Every yearly composite has this rectangle as footprint, holds the
  composite value at each pixel inside it and is masked at each pixel outside it. And,
  when the rectangle has no more than \<open>maxPixels\<close> pixels at the scale of the study, the
  yearly means and the two areas are taken over exactly the pixels of the grid that lie
  in it.
\<close>

theorem region_is_fixed_and_shared:
  "region = Rectangle 88.35 23.05 88.55 23.35 \<and>
   (\<forall>y col. collectionForYear P y = Some col \<longrightarrow>
      map footprint col =
        map footprint (filter (\<lambda>img. inYear y img \<and> meets (Rectangle 88.35 23.05 88.55 23.35) img)
                         (catalog P ''COPERNICUS/S2_SR''))) \<and>
   (\<forall>y col img. collectionForYear P y = Some col \<and> yearlyImage P y = Some img \<longrightarrow>
      footprint img = Some (Rectangle 88.35 23.05 88.55 23.35) \<and>
      (\<forall>p. pixel_value img ''NDVI'' p =
             (if inside (Rectangle 88.35 23.05 88.55 23.35) p
              then (if col = [] then Some (- 9999) else median (ndviSeries col p))
              else None))) \<and>
   (\<forall>ys px. yearlyList P = Some ys \<and>
        px = filter (inside (Rectangle 88.35 23.05 88.55 23.35)) (grid P studyScale) \<and>
        length px \<le> maxPixels \<longrightarrow>
      (\<exists>fc pos neg. meanPerYearFC P = Some fc \<and> areaPos P = Some pos \<and> areaNeg P = Some neg \<and>
         map (\<lambda>f. feature_get f ''meanNDVI'') fc =
           map (\<lambda>img. mean (List.map_filter (\<lambda>p. pixel_value img ''NDVI'' p) px)) ys \<and>
         pos ''NDVI_slope_per_year'' =
           Some (sum_list (map (cellArea P) (filter (\<lambda>p. \<exists>v. slopeAt P p = Some v \<and> 0 < v) px))) \<and>
         neg ''NDVI_slope_per_year'' =
           Some (sum_list (map (cellArea P) (filter (\<lambda>p. \<exists>v. slopeAt P p = Some v \<and> v < 0) px)))))"
proof (intro conjI allI impI)
  show "region = Rectangle 88.35 23.05 88.55 23.35" by (rule region_def)
next
  fix y col assume "collectionForYear P y = Some col"
  then show "map footprint col =
        map footprint (filter (\<lambda>img. inYear y img \<and> meets (Rectangle 88.35 23.05 88.55 23.35) img)
                         (catalog P ''COPERNICUS/S2_SR''))"
    by (rule collection_footprints)
next
  fix y col img assume "collectionForYear P y = Some col \<and> yearlyImage P y = Some img"
  then show "footprint img = Some (Rectangle 88.35 23.05 88.55 23.35)"
    using yearly_clipped(1) by blast
next
  fix y col img p assume a: "collectionForYear P y = Some col \<and> yearlyImage P y = Some img"
  show "pixel_value img ''NDVI'' p =
             (if inside (Rectangle 88.35 23.05 88.55 23.35) p
              then (if col = [] then Some (- 9999) else median (ndviSeries col p))
              else None)"
  proof -
    from a have c: "collectionForYear P y = Some col" and i: "yearlyImage P y = Some img"
      by simp_all
    show ?thesis by (rule yearly_clipped(2)[OF c i])
  qed
next
  fix ys px
  assume a: "yearlyList P = Some ys \<and>
        px = filter (inside (Rectangle 88.35 23.05 88.55 23.35)) (grid P studyScale) \<and>
        length px \<le> maxPixels"
  then have px: "px = regionGrid P" by (simp add: regionGrid_def studyScale_value)
  from a have ys: "yearlyList P = Some ys" and b0: "length px \<le> maxPixels" by blast+
  from b0 have bound: "length (regionGrid P) \<le> maxPixels" unfolding px .
  let ?F = "\<lambda>img. \<lparr>fproperties = [(''year'', get_property img ''year''),
                                   (''meanNDVI'', regionalMean P img)]\<rparr>"
  have fc: "meanPerYearFC P = Some (map ?F ys)" by (rule meanPerYearFC_value[OF ys bound])
  have means: "map (\<lambda>f. feature_get f ''meanNDVI'') (map ?F ys) =
           map (\<lambda>img. mean (List.map_filter (\<lambda>p. pixel_value img ''NDVI'' p) px)) ys"
    by (simp add: feature_get_def regionalMean_def px)
  from area_value[OF ys bound] obtain pos neg where r: "areaPos P = Some pos"
    "areaNeg P = Some neg"
    "pos ''NDVI_slope_per_year'' = Some (areaWhere P (\<lambda>v. 0 < v))"
    "neg ''NDVI_slope_per_year'' = Some (areaWhere P (\<lambda>v. v < 0))"
    by (elim exE conjE) (rule that; assumption)
  have h: "meanPerYearFC P = Some (map ?F ys) \<and> areaPos P = Some pos \<and> areaNeg P = Some neg \<and>
         map (\<lambda>f. feature_get f ''meanNDVI'') (map ?F ys) =
           map (\<lambda>img. mean (List.map_filter (\<lambda>p. pixel_value img ''NDVI'' p) px)) ys \<and>
         pos ''NDVI_slope_per_year'' =
           Some (sum_list (map (cellArea P) (filter (\<lambda>p. \<exists>v. slopeAt P p = Some v \<and> 0 < v) px))) \<and>
         neg ''NDVI_slope_per_year'' =
           Some (sum_list (map (cellArea P) (filter (\<lambda>p. \<exists>v. slopeAt P p = Some v \<and> v < 0) px)))"
    using fc means r(1,2) r(3)[unfolded areaWhere_ex] r(4)[unfolded areaWhere_ex]
    unfolding px by (intro conjI)
  show "\<exists>fc pos neg. meanPerYearFC P = Some fc \<and> areaPos P = Some pos \<and> areaNeg P = Some neg \<and>
         map (\<lambda>f. feature_get f ''meanNDVI'') fc =
           map (\<lambda>img. mean (List.map_filter (\<lambda>p. pixel_value img ''NDVI'' p) px)) ys \<and>
         pos ''NDVI_slope_per_year'' =
           Some (sum_list (map (cellArea P) (filter (\<lambda>p. \<exists>v. slopeAt P p = Some v \<and> 0 < v) px))) \<and>
         neg ''NDVI_slope_per_year'' =
           Some (sum_list (map (cellArea P) (filter (\<lambda>p. \<exists>v. slopeAt P p = Some v \<and> v < 0) px)))"
    by (rule exI[of _ "map ?F ys"], rule exI[of _ pos], rule exI[of _ neg]) (rule h)
qed

theorem region_is_fixed_and_shared_witness:
  "(\<exists>col img. collectionForYear demo_tiles 2019 = Some col \<and>
      map footprint col =
        [Some (Rectangle 88 23 89 24), Some (Rectangle 88 23 89 24),
         Some (Rectangle 88.52 23.32 88.6 23.4)] \<and>
      yearlyImage demo_tiles 2019 = Some img \<and>
      footprint img = Some (Rectangle 88.35 23.05 88.55 23.35) \<and>
      pixel_value img ''NDVI'' (88.4, 23.1) = Some (1 / 5) \<and>
      pixel_value img ''NDVI'' (88.6, 23.2) = None) \<and>
   (\<exists>ys fc pos neg. yearlyList demo = Some ys \<and>
      length (filter (inside (Rectangle 88.35 23.05 88.55 23.35)) (grid demo studyScale))
        \<le> maxPixels \<and>
      meanPerYearFC demo = Some fc \<and> areaPos demo = Some pos \<and> areaNeg demo = Some neg \<and>
      feature_get (fc ! 1) ''meanNDVI'' = Some (1 / 15) \<and>
      pos ''NDVI_slope_per_year'' = Some 200 \<and> neg ''NDVI_slope_per_year'' = Some 100)"
proof -
  note T = region_is_fixed_and_shared[of demo_tiles]
  note wf = wellFormed_demo_tiles and no = noIndexBand_demo_tiles
  obtain col where col: "collectionForYear demo_tiles 2019 = Some col"
    using collection_total[OF wf] by blast
  have acc: "filter (\<lambda>img. inYear 2019 img \<and> meets (Rectangle 88.35 23.05 88.55 23.35) img)
               (catalog demo_tiles ''COPERNICUS/S2_SR'') = sources demo_tiles 2019"
    by (simp add: sources_def)
  from T[THEN conjunct2, THEN conjunct1, rule_format, OF col]
  have fp: "map footprint col =
        [Some (Rectangle 88 23 89 24), Some (Rectangle 88 23 89 24),
         Some (Rectangle 88.52 23.32 88.6 23.4)]"
    unfolding acc by (simp add: sources_demo_tiles scene_simps tile_simps)
  then have ne: "col \<noteq> []" by auto
  obtain img where img: "yearlyImage demo_tiles 2019 = Some img"
    using yearly_pixels[OF col] by blast
  note C = T[THEN conjunct2, THEN conjunct2, THEN conjunct1, rule_format, OF conjI[OF col img]]
  have s: "ndviSeries col (88.4, 23.1) = [1 / 5]"
    by (simp add: series_of_sources(1)[OF wf no col] sources_demo_tiles ndviOf_scene ndviOf_tile
        landClass_def nd_def)
  have v1: "pixel_value img ''NDVI'' (88.4, 23.1) = Some (1 / 5)"
    using C[THEN conjunct2, rule_format, of "(88.4, 23.1)"] s ne by (simp add: median_def)
  have v2: "pixel_value img ''NDVI'' (88.6, 23.2) = None"
    using C[THEN conjunct2, rule_format, of "(88.6, 23.2)"] by simp
  have first: "\<exists>col img. collectionForYear demo_tiles 2019 = Some col \<and>
      map footprint col =
        [Some (Rectangle 88 23 89 24), Some (Rectangle 88 23 89 24),
         Some (Rectangle 88.52 23.32 88.6 23.4)] \<and>
      yearlyImage demo_tiles 2019 = Some img \<and>
      footprint img = Some (Rectangle 88.35 23.05 88.55 23.35) \<and>
      pixel_value img ''NDVI'' (88.4, 23.1) = Some (1 / 5) \<and>
      pixel_value img ''NDVI'' (88.6, 23.2) = None"
    using col fp img C[THEN conjunct1] v1 v2 by (intro exI[of _ col] exI[of _ img]) simp
  note D = region_is_fixed_and_shared[of demo, THEN conjunct2, THEN conjunct2, THEN conjunct2,
      rule_format]
  obtain ys where ys: "yearlyList demo = Some ys"
    using yearlyList_total[OF wellFormed_demo] by blast
  let ?px = "filter (inside (Rectangle 88.35 23.05 88.55 23.35)) (grid demo studyScale)"
  have px: "?px = regionGrid demo" by (simp add: regionGrid_def studyScale_value)
  have bound: "length ?px \<le> maxPixels" unfolding px by (rule bound_demo)
  from D[OF conjI[OF ys conjI[OF refl bound]]] obtain fc pos neg where r: "meanPerYearFC demo = Some fc"
    "areaPos demo = Some pos" "areaNeg demo = Some neg"
    "map (\<lambda>f. feature_get f ''meanNDVI'') fc =
       map (\<lambda>img. mean (List.map_filter (\<lambda>p. pixel_value img ''NDVI'' p) ?px)) ys"
    "pos ''NDVI_slope_per_year'' =
       Some (sum_list (map (cellArea demo)
          (filter (\<lambda>p. \<exists>v. slopeAt demo p = Some v \<and> 0 < v) ?px)))"
    "neg ''NDVI_slope_per_year'' =
       Some (sum_list (map (cellArea demo)
          (filter (\<lambda>p. \<exists>v. slopeAt demo p = Some v \<and> v < 0) ?px)))"
    by (elim exE conjE) (rule that; assumption)
  have a: "cellArea demo p = 100" for p by (simp add: demo_def)
  have "areaWhere demo (\<lambda>v. 0 < v) = 200" "areaWhere demo (\<lambda>v. v < 0) = 100"
    using slopeAt_demo_grid by (simp_all add: areaWhere_def regionGrid_demo a)
  then have areas: "pos ''NDVI_slope_per_year'' = Some 200" "neg ''NDVI_slope_per_year'' = Some 100"
    unfolding areaWhere_ex using r(5)[unfolded px] r(6)[unfolded px] by simp_all
  have len: "length ys = 6" using yearlyList_nth(1)[OF ys] by (simp add: years_list)
  from r(4) have lf: "length fc = length ys" using map_eq_imp_length_eq by blast
  have "yearlyImage demo (years ! 1) = Some (ys ! 1)"
    by (rule yearlyList_nth(2)[OF ys]) (simp add: years_list)
  then have i1: "yearlyImage demo 2019 = Some (ys ! 1)" by (simp add: years_list)
  obtain img' where i': "yearlyImage demo 2019 = Some img'"
    "\<forall>p. pixel_value img' ''NDVI'' p = compositeNDVI demo 2019 p"
    using composite_of_sources[OF wellFormed_demo noIndexBand_demo, of 2019] by blast
  from i1 i'(1) have "img' = ys ! 1" by simp
  then have pv: "pixel_value (ys ! 1) ''NDVI'' p = compositeNDVI demo 2019 p" for p
    using i'(2)[rule_format, of p] by simp
  have fe: "pixel_value (ys ! 1) ''NDVI'' = compositeNDVI demo 2019" by (rule ext) (rule pv)
  have "feature_get (fc ! 1) ''meanNDVI'' = map (\<lambda>f. feature_get f ''meanNDVI'') fc ! 1"
    using lf len by simp
  also have "\<dots> = mean (List.map_filter (\<lambda>p. pixel_value (ys ! 1) ''NDVI'' p) ?px)"
    unfolding r(4) using len by simp
  also have "\<dots> = Some (1 / 15)"
    unfolding px fe by (simp add: regionGrid_demo composite_demo mean_def)
  finally have m: "feature_get (fc ! 1) ''meanNDVI'' = Some (1 / 15)" .
  have second: "\<exists>ys fc pos neg. yearlyList demo = Some ys \<and> length ?px \<le> maxPixels \<and>
      meanPerYearFC demo = Some fc \<and> areaPos demo = Some pos \<and> areaNeg demo = Some neg \<and>
      feature_get (fc ! 1) ''meanNDVI'' = Some (1 / 15) \<and>
      pos ''NDVI_slope_per_year'' = Some 200 \<and> neg ''NDVI_slope_per_year'' = Some 100"
    using ys bound r(1,2,3) m areas
    by (intro exI[of _ ys] exI[of _ fc] exI[of _ pos] exI[of _ neg]) simp
  from first second show ?thesis by (rule conjI)
qed


end
